theory Spec2Isabelle
  imports Complex_Main
begin

section \<open>Data model\<close>

text \<open>
  The repository is Python. Floats are modelled as \<open>real\<close> (no rounding, no NaN),
  Python integers as \<open>int\<close>, numpy arrays as lists of reals. Python's \<open>bool\<close> is a
  subtype of \<open>int\<close> (\<open>False == 0\<close>, \<open>True == 1\<close>), which is how the option
  \<open>periodic_ckpt: int | False\<close> is read below.
\<close>

type_synonym array = "real list"

text \<open>The exceptions the two files can raise implicitly; there is no explicit \<open>raise\<close>.\<close>

datatype py_error =
    AttributeError
  | UnboundLocalError
  | ZeroDivisionError
  | AssertionError
  | ValueError
  | KeyError

text \<open>The observation dictionary of the gym environment used by \<open>rollout.py\<close>.\<close>

record obs_dict =
  observation :: array
  desired_goal :: array
  achieved_goal :: array

text \<open>The \<open>info\<close> dictionary returned by \<open>env.step\<close>.\<close>

record info_dict =
  is_success :: bool
  dist :: real

text \<open>
  One field of the list handed to \<open>agent.remember\<close>: an array, the reward (a float)
  or \<open>int(done)\<close>.
\<close>

datatype field = Arr array | Rew real | Flag int

type_synonym transition = "field list"

text \<open>
  The effects on the outside world, in the order the code performs them. A checkpoint
  \<open>saver.save(sess, "__checkpoints/{}_{}".format(c, episode))\<close> is recorded as
  \<open>SaverSave c episode\<close>.
\<close>

datatype event =
    EnvReset
  | AgentStep array "bool option" "bool option"
  | EnvStep array
  | Remember transition
  | EnvRender
  | AgentTrain
  | Sleep real
  | SaverSave string int
  | AddSummary "(string \<times> real) list" int
  | AddMergedSummary int
  | Flush
  | InfoOut string
  | InfoNewBest real
  | LogOut string
  | PrintTrain string int real real int
  | PrintBlank
  | InfoEval real real int real
  | PrintLine string int int real int real
  | PrintNewBest real
  | PrintOldBest real

text \<open>
  The external collaborators. The environment and the agent are state machines over
  abstract states \<open>'e\<close> and \<open>'a\<close>; \<open>agent_step\<close> takes the stacked input, the
  positional \<open>is_u_discrete\<close> (when passed) and the keyword \<open>explore\<close> (when
  passed), and returns \<open>(a, u, q)\<close>.
\<close>

record 'e env_ops =
  env_reset :: "'e \<Rightarrow> obs_dict \<times> 'e"
  env_step :: "'e \<Rightarrow> array \<Rightarrow> (obs_dict \<times> real \<times> bool \<times> info_dict) \<times> 'e"
  env_render :: "'e \<Rightarrow> 'e"
  max_episode_steps :: int

record 'a agent_ops =
  agent_step :: "'a \<Rightarrow> array \<Rightarrow> bool option \<Rightarrow> bool option \<Rightarrow> (array \<times> array \<times> real) \<times> 'a"
  agent_remember :: "'a \<Rightarrow> transition \<Rightarrow> 'a"
  agent_train :: "'a \<Rightarrow> 'a"

text \<open>The configuration mapping: the documented keys, each present or absent.\<close>

record config =
  cfg_render :: "bool option"
  cfg_train_cycles_per_ts :: "int option"
  cfg_periodic_ckpt :: "int option"
  cfg_save_best :: "bool option"
  cfg_n_episodes :: "int option"
  cfg_step_sleep :: "real option"

text \<open>
  The attributes of a \<open>RolloutGenerator\<close>. An attribute that may be missing from
  \<open>self.__dict__\<close> is an option; \<open>summary_writer\<close> is \<open>None\<close> or the name of a
  writer; \<open>out\<close> holds the effects performed so far.
\<close>

record ('e, 'a) rollout_generator =
  name :: string
  env :: 'e
  agent :: 'a
  eval :: bool
  best_score :: real
  summary_writer :: "string option"
  summary :: "(string \<times> real) list option"
  eval_counter :: "int option"
  render :: "bool option"
  train_cycles_per_ts :: "int option"
  periodic_ckpt :: int
  save_best :: bool
  n_episodes :: "int option"
  step_sleep :: "real option"
  q_total :: real
  r_total :: real
  t_steps :: int
  episode :: int
  success :: int
  mean_eq :: "real option"
  mean_er :: "real option"
  out :: "event list"

text \<open>
  A call either raises (with the state at that moment) or returns a value; the state of
  the generator is part of what it returns.
\<close>

type_synonym ('e, 'a) raised = "py_error \<times> ('e, 'a) rollout_generator"

section \<open>rollout.py\<close>

definition emit :: "event list \<Rightarrow> ('e, 'a) rollout_generator \<Rightarrow> ('e, 'a) rollout_generator" where
  "emit evs s = s\<lparr>out := out s @ evs\<rparr>"

definition reset :: "('e, 'a) rollout_generator \<Rightarrow> ('e, 'a) rollout_generator" where
  "reset s = s\<lparr>q_total := 0, r_total := 0, t_steps := 0, episode := 0, success := 0\<rparr>"

definition init :: "'e \<Rightarrow> 'a \<Rightarrow> config \<Rightarrow> bool \<Rightarrow> string option \<Rightarrow> ('e, 'a) rollout_generator" where
  "init e a c ev w =
     (let nm = (if ev then ''*EVAL'' else ''TRAIN'') @ ''_ROLLOUT'' in
      emit [InfoOut (''Initialized '' @ nm)]
        (reset
          \<lparr>name = nm, env = e, agent = a, eval = ev, best_score = 0,
           summary_writer = w, summary = Some [],
           eval_counter = (if ev then Some 0 else None),
           render = cfg_render c,
           train_cycles_per_ts = cfg_train_cycles_per_ts c,
           periodic_ckpt = (case cfg_periodic_ckpt c of None \<Rightarrow> 0 | Some p \<Rightarrow> p),
           save_best = (case cfg_save_best c of None \<Rightarrow> False | Some b \<Rightarrow> b),
           n_episodes = cfg_n_episodes c,
           step_sleep = cfg_step_sleep c,
           q_total = 0, r_total = 0, t_steps = 0, episode = 0, success = 0,
           mean_eq = None, mean_er = None, out = []\<rparr>))"


text \<open>
  \<open>update_stats\<close>: the three totals are updated first; the division
  \<open>self.q_total/self.episode\<close> raises when \<open>episode\<close> is 0.
\<close>

definition update_stats ::
  "('e, 'a) rollout_generator \<Rightarrow> real \<Rightarrow> real \<Rightarrow> int \<Rightarrow> ('e, 'a) raised + ('e, 'a) rollout_generator" where
  "update_stats s eps_q eps_r t =
     (let s1 = s\<lparr>q_total := q_total s + eps_q, r_total := r_total s + eps_r,
                  t_steps := t_steps s + t\<rparr>
      in if episode s1 = 0 then Inl (ZeroDivisionError, s1)
         else Inr (s1\<lparr>mean_eq := Some (q_total s1 / real_of_int (episode s1)),
                       mean_er := Some (r_total s1 / real_of_int (episode s1))\<rparr>))"

text \<open>
  \<open>update_summaries\<close>: in evaluation mode the counter is \<open>eval_counter\<close>, incremented
  first; \<open>self.summary_writer.add_summary\<close> raises when the writer is \<open>None\<close>.
\<close>

definition update_summaries ::
  "('e, 'a) rollout_generator \<Rightarrow> real \<Rightarrow> real \<Rightarrow> ('e, 'a) raised + ('e, 'a) rollout_generator" where
  "update_summaries s episodic_r episodic_q =
     (case (if eval s
            then (case eval_counter s of
                    None \<Rightarrow> Inl (AttributeError, s)
                  | Some c \<Rightarrow> Inr (s\<lparr>eval_counter := Some (c + 1)\<rparr>, c + 1))
            else Inr (s, episode s)) of
        Inl e \<Rightarrow> Inl e
      | Inr (s1, counter) \<Rightarrow>
          (case summary_writer s1 of
             None \<Rightarrow> Inl (AttributeError, s1)
           | Some w \<Rightarrow>
               Inr (emit [AddSummary [(name s1 @ ''/episodic_r'', episodic_r),
                                      (name s1 @ ''/episodic_q'', episodic_q)] counter,
                          Flush] s1)))"

definition write_summary ::
  "('e, 'a) rollout_generator \<Rightarrow> ('e, 'a) raised + ('e, 'a) rollout_generator" where
  "write_summary s =
     (case summary_writer s of
        None \<Rightarrow> Inl (AttributeError, s)
      | Some w \<Rightarrow> Inr (emit [AddMergedSummary (episode s), LogOut (name s)] s))"

text \<open>
  \<open>log\<close>: the training line, or the evaluation block, whose success rate
  \<open>100*(self.success/self.n_episodes)\<close> is computed after the first blank line is printed.
\<close>

definition log_rg ::
  "('e, 'a) rollout_generator \<Rightarrow> real \<Rightarrow> real \<Rightarrow> int \<Rightarrow> ('e, 'a) raised + ('e, 'a) rollout_generator" where
  "log_rg s q r t =
     (if \<not> eval s then Inr (emit [PrintTrain (name s) (episode s) r q t] s)
      else
        (let s1 = emit [PrintBlank] s in
         case n_episodes s1 of
           None \<Rightarrow> Inl (AttributeError, s1)
         | Some n \<Rightarrow>
             if n = 0 then Inl (ZeroDivisionError, s1)
             else Inr (emit [InfoEval r q t (100 * (real_of_int (success s1) / real_of_int n)),
                             PrintBlank] s1)))"

text \<open>\<open>done\<close> (the name is a keyword of Isabelle, hence \<open>done_rg\<close>).\<close>

definition done_rg ::
  "('e, 'a) rollout_generator \<Rightarrow> ('e, 'a) raised + (bool \<times> ('e, 'a) rollout_generator)" where
  "done_rg s =
     (case n_episodes s of
        None \<Rightarrow> Inl (AttributeError, s)
      | Some n \<Rightarrow>
          (let d = (n \<le> episode s) in
           if d \<and> eval s then
             (case mean_eq s of
                None \<Rightarrow> Inl (AttributeError, s)
              | Some mq \<Rightarrow>
                  (case mean_er s of
                     None \<Rightarrow> Inl (AttributeError, s)
                   | Some mr \<Rightarrow>
                       (case log_rg s mq mr (t_steps s) of
                          Inl e \<Rightarrow> Inl e
                        | Inr s1 \<Rightarrow> Inr (d, s1))))
           else Inr (d, s)))"

text \<open>
  \<open>create_checkpoint\<close>. \<open>self.periodic_ckpt and ...\<close> tests the truth value of the
  period first, so the remainder is never taken by 0; HOL's \<open>mod\<close> on \<open>int\<close> is
  Python's \<open>%\<close> (the sign of the divisor).
\<close>

definition create_checkpoint ::
  "('e, 'a) rollout_generator \<Rightarrow> ('e, 'a) raised + ('e, 'a) rollout_generator" where
  "create_checkpoint s =
     (let s1 = (if periodic_ckpt s \<noteq> 0 \<and> episode s mod periodic_ckpt s = 0
                then emit [InfoOut ''Creating periodic checkpoint'',
                           SaverSave ''P'' (episode s)] s
                else s)
      in if eval s1 \<and> save_best s1 then
           (case mean_er s1 of
              None \<Rightarrow> Inl (AttributeError, s1)
            | Some m \<Rightarrow>
                if m > best_score s1
                then Inr (emit [SaverSave ''B'' (episode s1)]
                            ((emit [InfoNewBest m] s1)\<lparr>best_score := m\<rparr>))
                else Inr s1)
         else Inr s1)"


text \<open>
  Python's \<open>range(n)\<close> for one integer argument (empty when \<open>n \<le> 0\<close>), and the
  truth value of a string (\<open>assert "train_cycles_per_ts"\<close> tests a string literal).
\<close>

definition py_range :: "int \<Rightarrow> int list" where
  "py_range n = [0..n - 1]"

definition truthy_str :: "string \<Rightarrow> bool" where
  "truthy_str v = (v \<noteq> [])"

text \<open>
  \<open>for i in range(n): agent.train()\<close>, on the agent and the effects so far.
\<close>

fun train_cycles :: "'a agent_ops \<Rightarrow> int list \<Rightarrow> 'a \<times> event list \<Rightarrow> 'a \<times> event list" where
  "train_cycles A [] (ag, evs) = (ag, evs)"
| "train_cycles A (i # is) (ag, evs) = train_cycles A is (agent_train A ag, evs @ [AgentTrain])"

text \<open>
  The list handed to \<open>agent.remember\<close> at a step from \<open>x\<close> to \<open>x2\<close>.
\<close>

definition transition_of :: "obs_dict \<Rightarrow> array \<Rightarrow> real \<Rightarrow> obs_dict \<Rightarrow> bool \<Rightarrow> transition" where
  "transition_of x u r x2 d =
     [Arr (observation x), Arr (desired_goal x), Arr (achieved_goal x), Arr u, Rew r,
      Arr (observation x2), Arr (desired_goal x2), Flag (if d then 1 else 0)]"

text \<open>
  The body of the \<open>while\<close> loop of \<open>generate_rollout\<close>, in the three parts the
  source marks. First the step itself: the agent chooses, the environment answers, the
  transition is remembered.
\<close>

definition step_and_remember ::
  "'e env_ops \<Rightarrow> 'a agent_ops \<Rightarrow> ('e, 'a) rollout_generator \<Rightarrow> obs_dict \<Rightarrow>
   ('e, 'a) rollout_generator \<times> obs_dict \<times> real \<times> real \<times> bool \<times> info_dict" where
  "step_and_remember E A s x =
     (let inp = observation x @ desired_goal x;
          ((a, u, q), ag1) = agent_step A (agent s) inp None (Some (\<not> eval s));
          ((x2, r, d, info), e1) = env_step E (env s) a;
          tr = transition_of x u r x2 d
      in (emit [AgentStep inp None (Some (\<not> eval s)), EnvStep a, Remember tr]
            (s\<lparr>agent := agent_remember A ag1 tr, env := e1\<rparr>),
          x2, r, q, d, info))"

text \<open>\<open>if self.render: self.env.render()\<close>\<close>

definition render_if_required ::
  "'e env_ops \<Rightarrow> ('e, 'a) rollout_generator \<Rightarrow> ('e, 'a) raised + ('e, 'a) rollout_generator" where
  "render_if_required E s =
     (case render s of
        None \<Rightarrow> Inl (AttributeError, s)
      | Some rd \<Rightarrow>
          Inr (if rd then emit [EnvRender] (s\<lparr>env := env_render E (env s)\<rparr>) else s))"

text \<open>
  The training calls outside evaluation mode, after the \<open>assert\<close>; in evaluation mode
  the sleep, when \<open>step_sleep\<close> is configured (\<open>time.sleep\<close> raises \<open>ValueError\<close> on a
  negative length).
\<close>

definition train_if_required ::
  "'a agent_ops \<Rightarrow> ('e, 'a) rollout_generator \<Rightarrow> ('e, 'a) raised + ('e, 'a) rollout_generator" where
  "train_if_required A s =
     (if \<not> eval s then
        (if \<not> truthy_str ''train_cycles_per_ts'' then Inl (AssertionError, s)
         else
           (case train_cycles_per_ts s of
              None \<Rightarrow> Inl (AttributeError, s)
            | Some n \<Rightarrow>
                (let (ag3, evs3) = train_cycles A (py_range n) (agent s, out s)
                 in Inr (s\<lparr>agent := ag3, out := evs3\<rparr>))))
      else
        (case step_sleep s of
           None \<Rightarrow> Inr s
         | Some sl \<Rightarrow> if sl < 0 then Inl (ValueError, s) else Inr (emit [Sleep sl] s)))"

text \<open>
  One pass through the body, from the observation \<open>x\<close>: it returns the new state with
  \<open>x2\<close>, \<open>r\<close>, \<open>q\<close>, \<open>done\<close> and \<open>info\<close>.
\<close>

definition rollout_body ::
  "'e env_ops \<Rightarrow> 'a agent_ops \<Rightarrow> ('e, 'a) rollout_generator \<Rightarrow> obs_dict \<Rightarrow>
   ('e, 'a) raised + (('e, 'a) rollout_generator \<times> obs_dict \<times> real \<times> real \<times> bool \<times> info_dict)" where
  "rollout_body E A s x =
     (let (s1, y) = step_and_remember E A s x in
      case render_if_required E s1 of
        Inl e \<Rightarrow> Inl e
      | Inr s2 \<Rightarrow>
          (case train_if_required A s2 of
             Inl e \<Rightarrow> Inl e
           | Inr s3 \<Rightarrow> Inr (s3, y)))"

text \<open>
  The \<open>while not done and t < self.env.max_episode_steps\<close> loop, with the locals
  \<open>x\<close>, \<open>t\<close>, \<open>done\<close>, \<open>episodic_q\<close>, \<open>episodic_r\<close> and \<open>info\<close> (unbound until
  the first step).
\<close>

function rollout_loop ::
  "'e env_ops \<Rightarrow> 'a agent_ops \<Rightarrow> ('e, 'a) rollout_generator \<Rightarrow> obs_dict \<Rightarrow> int \<Rightarrow> bool \<Rightarrow>
   real \<Rightarrow> real \<Rightarrow> info_dict option \<Rightarrow>
   ('e, 'a) raised + (('e, 'a) rollout_generator \<times> int \<times> real \<times> real \<times> info_dict option)" where
  "rollout_loop E A s x t d episodic_q episodic_r info =
     (if \<not> d \<and> t < max_episode_steps E then
        (case rollout_body E A s x of
           Inl e \<Rightarrow> Inl e
         | Inr (s1, x2, r, q, d2, info2) \<Rightarrow>
             rollout_loop E A s1 x2 (t + 1) d2 (episodic_q + q) (episodic_r + r) (Some info2))
      else Inr (s, t, episodic_q, episodic_r, info))"
  by pat_completeness auto
termination
  by (relation "measure (\<lambda>(E, A, s, x, t, d, eq, er, info). nat (max_episode_steps E - t))") auto

declare rollout_loop.simps [simp del]

text \<open>
  The success counter, which only evaluation mode increments, and the message on success
  (\<open>if self.eval and info["is_success"]\<close>, then \<open>if info["is_success"]\<close>).
\<close>

definition report_success ::
  "('e, 'a) rollout_generator \<Rightarrow> info_dict \<Rightarrow> ('e, 'a) rollout_generator" where
  "report_success s i =
     (let s1 = (if eval s \<and> is_success i then s\<lparr>success := success s + 1\<rparr> else s)
      in if is_success i then emit [LogOut ''Reached goal.. hooray?''] s1 else s1)"

text \<open>
  What follows the loop in \<open>generate_rollout\<close>. \<open>info\<close> is a local of the function:
  read before any step assigned it, it raises \<open>UnboundLocalError\<close>.
\<close>

definition finish_rollout ::
  "('e, 'a) rollout_generator \<Rightarrow> int \<Rightarrow> real \<Rightarrow> real \<Rightarrow> info_dict option \<Rightarrow>
   ('e, 'a) raised + ('e, 'a) rollout_generator" where
  "finish_rollout s t episodic_q episodic_r info =
     (case update_stats (s\<lparr>episode := episode s + 1\<rparr>) episodic_q episodic_r t of
        Inl e \<Rightarrow> Inl e
      | Inr s1 \<Rightarrow>
          (case (if summary s1 \<noteq> None then update_summaries s1 episodic_r episodic_q
                 else Inr s1) of
             Inl e \<Rightarrow> Inl e
           | Inr s2 \<Rightarrow>
               (case (if \<not> eval s2 then log_rg s2 episodic_q episodic_r t else Inr s2) of
                  Inl e \<Rightarrow> Inl e
                | Inr s3 \<Rightarrow>
                    (case info of
                       None \<Rightarrow> Inl (UnboundLocalError, s3)
                     | Some i \<Rightarrow> create_checkpoint (report_success s3 i)))))"

definition generate_rollout ::
  "'e env_ops \<Rightarrow> 'a agent_ops \<Rightarrow> ('e, 'a) rollout_generator \<Rightarrow>
   ('e, 'a) raised + ('e, 'a) rollout_generator" where
  "generate_rollout E A s =
     (let (x, e1) = env_reset E (env s) in
      case rollout_loop E A (emit [EnvReset] (s\<lparr>env := e1\<rparr>)) x 0 False 0 0 None of
        Inl e \<Rightarrow> Inl e
      | Inr (s1, t, episodic_q, episodic_r, info) \<Rightarrow>
          finish_rollout s1 t episodic_q episodic_r info)"


section \<open>train.py\<close>

text \<open>
  The environment of \<open>train.py\<close> is \<open>G2Goal\<close>, whose class is not in the repository:
  its observations have the keys \<open>obs\<close>, \<open>goal\<close> and \<open>ag\<close>, and the script reads
  \<open>get_current_distance()\<close>, \<open>_max_episode_steps\<close> and, through
  \<open>len(env.action_space.shape) == 0\<close>, \<open>is_u_discrete\<close>.
\<close>

record g2g_obs =
  obs :: array
  goal :: array
  ag :: array

record 'e g2goal_ops =
  g_reset :: "'e \<Rightarrow> g2g_obs \<times> 'e"
  g_step :: "'e \<Rightarrow> array \<Rightarrow> (g2g_obs \<times> real \<times> bool \<times> info_dict) \<times> 'e"
  g_render :: "'e \<Rightarrow> 'e"
  get_current_distance :: "'e \<Rightarrow> real"
  g_max_episode_steps :: int
  is_u_discrete :: bool

text \<open>
  \<open>scale_action\<close>: \<open>(u+1)/2. * [0.2, np.pi/2] + [0, -np.pi/4]\<close> on a numpy array.
  An array of two components is scaled component by component, one of a single
  component is broadcast to two, any other length fails to broadcast.
\<close>

definition scale_action :: "array \<Rightarrow> py_error + array" where
  "scale_action u =
     (case u of
        [a, b] \<Rightarrow> Inr [(a + 1) / 2 * (2 / 10) + 0, (b + 1) / 2 * (pi / 2) + (- (pi / 4))]
      | [a] \<Rightarrow> Inr [(a + 1) / 2 * (2 / 10) + 0, (a + 1) / 2 * (pi / 2) + (- (pi / 4))]
      | _ \<Rightarrow> Inl ValueError)"

text \<open>\<open>int(x)\<close> of a float: truncation towards zero.\<close>

definition py_int :: "real \<Rightarrow> int" where
  "py_int v = (if 0 \<le> v then \<lfloor>v\<rfloor> else \<lceil>v\<rceil>)"

text \<open>
  What \<open>train\<close> keeps from one episode to the next: the environment, the agent, the
  growing summary \<open>s_summary\<close>, the best evaluation score, the loop variables \<open>i\<close> and
  \<open>j\<close> (unbound until their loops have run once), the last \<open>m_eval_score\<close>, and the
  effects so far.
\<close>

record ('e, 'a) train_state =
  g_env :: 'e
  ddpg_agent :: 'a
  s_summary :: "(string \<times> real) list"
  current_best_eval_score :: real
  m_eval_score :: "real option"
  loop_i :: "int option"
  loop_j :: "int option"
  effects :: "event list"

text \<open>The locals of one training episode.\<close>

record episode_locals =
  cur_obs :: g2g_obs
  sum_r :: real
  sum_q :: real
  episode_batch :: "transition list"
  min_d2goal :: real

type_synonym ('e, 'a) t_raised = "py_error \<times> ('e, 'a) train_state"

definition t_emit :: "event list \<Rightarrow> ('e, 'a) train_state \<Rightarrow> ('e, 'a) train_state" where
  "t_emit evs st = st\<lparr>effects := effects st @ evs\<rparr>"

text \<open>
  The body of \<open>for i in range(env._max_episode_steps)\<close> in episode \<open>episode\<close>; the
  boolean returned is whether the loop was left by \<open>break\<close>.
\<close>

definition train_step ::
  "'e g2goal_ops \<Rightarrow> 'a agent_ops \<Rightarrow> config \<Rightarrow> int \<Rightarrow> int \<Rightarrow> ('e, 'a) train_state \<Rightarrow>
   episode_locals \<Rightarrow> ('e, 'a) t_raised + (('e, 'a) train_state \<times> episode_locals \<times> bool)" where
  "train_step G A c ep i st loc =
     (let x = cur_obs loc;
          inp = obs x @ goal x;
          ((action, u, q), ag1) = agent_step A (ddpg_agent st) inp (Some (is_u_discrete G)) None;
          st1 = t_emit [AgentStep inp (Some (is_u_discrete G)) None] (st\<lparr>ddpg_agent := ag1\<rparr>);
          eq1 = sum_q loc + q
      in case scale_action action of
           Inl err \<Rightarrow> Inl (err, st1)
         | Inr act \<Rightarrow>
             (let ((new_obs, r, d, info), e1) = g_step G (g_env st1) act;
                  st2 = t_emit [EnvStep act] (st1\<lparr>g_env := e1\<rparr>);
                  tr = [Arr (obs x), Arr (goal x), Arr (ag x), Arr u, Rew r,
                        Arr (obs new_obs), Arr (goal new_obs), Flag (if d then 1 else 0)];
                  loc1 = \<lparr>cur_obs = new_obs, sum_r = sum_r loc + r, sum_q = eq1,
                          episode_batch = episode_batch loc @ [tr],
                          min_d2goal = (if dist info < min_d2goal loc then dist info
                                        else min_d2goal loc)\<rparr>;
                  st3 = (if cfg_render c = Some True
                         then t_emit [EnvRender] (st2\<lparr>g_env := g_render G (g_env st2)\<rparr>)
                         else st2);
                  (ag4, evs4) = train_cycles A (py_range 5) (ddpg_agent st3, effects st3);
                  st4 = st3\<lparr>ddpg_agent := ag4, effects := evs4\<rparr>
              in if d then Inr (st4, loc1, True)
                 else
                   (let ss = s_summary st4 @
                               [(''run/l_velocity'', act ! 0), (''run/a_velocity'', act ! 1),
                                (''run/meanQ'', eq1 / real_of_int (i + 1))]
                    in Inr (t_emit [AddSummary ss (ep * g_max_episode_steps G + i)]
                              (st4\<lparr>s_summary := ss\<rparr>),
                            loc1, False))))"

fun train_steps ::
  "'e g2goal_ops \<Rightarrow> 'a agent_ops \<Rightarrow> config \<Rightarrow> int \<Rightarrow> int list \<Rightarrow> ('e, 'a) train_state \<Rightarrow>
   episode_locals \<Rightarrow> ('e, 'a) t_raised + (('e, 'a) train_state \<times> episode_locals)" where
  "train_steps G A c ep [] st loc = Inr (st, loc)"
| "train_steps G A c ep (i # is) st loc =
     (case train_step G A c ep i (st\<lparr>loop_i := Some i\<rparr>) loc of
        Inl e \<Rightarrow> Inl e
      | Inr (st1, loc1, brk) \<Rightarrow>
          if brk then Inr (st1, loc1) else train_steps G A c ep is st1 loc1)"

text \<open>\<open>for experience in episode_batch: ddpg_agent.remember(experience)\<close>\<close>

fun remember_all ::
  "'a agent_ops \<Rightarrow> transition list \<Rightarrow> ('e, 'a) train_state \<Rightarrow> ('e, 'a) train_state" where
  "remember_all A [] st = st"
| "remember_all A (tr # trs) st =
     remember_all A trs
       (t_emit [Remember tr] (st\<lparr>ddpg_agent := agent_remember A (ddpg_agent st) tr\<rparr>))"

text \<open>
  The evaluation runs: \<open>for j in range(env._max_episode_steps)\<close> over the locals
  \<open>obs\<close>, \<open>eval_score\<close> and \<open>eval_q\<close>, and \<open>for eval_run in range(5)\<close> over
  \<open>m_eval_score\<close> and \<open>m_eval_q\<close>. The action given to the environment here is the
  first component of the agent's answer, not scaled.
\<close>

fun eval_steps ::
  "'e g2goal_ops \<Rightarrow> 'a agent_ops \<Rightarrow> int list \<Rightarrow> ('e, 'a) train_state \<Rightarrow> g2g_obs \<Rightarrow> real \<Rightarrow> real \<Rightarrow>
   ('e, 'a) train_state \<times> real \<times> real" where
  "eval_steps G A [] st x eval_score eval_q = (st, eval_score, eval_q)"
| "eval_steps G A (j # js) st x eval_score eval_q =
     (let inp = obs x @ goal x;
          ((u, u2, q), ag1) = agent_step A (ddpg_agent st) inp (Some (is_u_discrete G)) (Some False);
          ((x2, r, d, info), e1) = g_step G (g_env st) u;
          st1 = t_emit [AgentStep inp (Some (is_u_discrete G)) (Some False), EnvStep u]
                  (st\<lparr>ddpg_agent := ag1, g_env := e1, loop_j := Some j\<rparr>)
      in if d then (st1, eval_score + r, eval_q + q)
         else eval_steps G A js st1 x2 (eval_score + r) (eval_q + q))"

fun eval_runs ::
  "'e g2goal_ops \<Rightarrow> 'a agent_ops \<Rightarrow> int list \<Rightarrow> ('e, 'a) train_state \<Rightarrow> real \<Rightarrow> real \<Rightarrow>
   ('e, 'a) t_raised + (('e, 'a) train_state \<times> real \<times> real)" where
  "eval_runs G A [] st m_score m_q = Inr (st, m_score, m_q)"
| "eval_runs G A (eval_run # rest) st m_score m_q =
     (let (x, e1) = g_reset G (g_env st);
          (st1, eval_score, eval_q) =
             eval_steps G A (py_range (g_max_episode_steps G))
               (t_emit [EnvReset] (st\<lparr>g_env := e1\<rparr>)) x 0 0;
          m_q1 = m_q + eval_q;
          m_score1 = m_score + eval_score;
          st2 = st1\<lparr>m_eval_score := Some m_score1\<rparr>
      in case loop_j st2 of
           None \<Rightarrow> Inl (UnboundLocalError, st2)
         | Some j \<Rightarrow>
             eval_runs G A rest
               (t_emit [PrintLine ''E'' (eval_run + 1) (py_int eval_score) m_q1 (j + 1) (- 1)] st2)
               m_score1 m_q1)"

text \<open>
  The body of \<open>for episode in range(config["n_episodes"])\<close>: one training episode and,
  after every 20th, the evaluation block and the best-policy checkpoint
  \<open>saver.save(tf_session, "__checkpoints/nb_policy", episode)\<close>.
\<close>

definition train_episode ::
  "'e g2goal_ops \<Rightarrow> 'a agent_ops \<Rightarrow> config \<Rightarrow> ('e, 'a) train_state \<Rightarrow> int \<Rightarrow>
   ('e, 'a) t_raised + ('e, 'a) train_state" where
  "train_episode G A c st ep =
     (let (x, e1) = g_reset G (g_env st);
          st0 = t_emit [EnvReset] (st\<lparr>g_env := e1\<rparr>);
          loc0 = \<lparr>cur_obs = x, sum_r = 0, sum_q = 0, episode_batch = [],
                  min_d2goal = get_current_distance G (g_env st0)\<rparr>
      in case train_steps G A c ep (py_range (g_max_episode_steps G)) st0 loc0 of
           Inl e \<Rightarrow> Inl e
         | Inr (st1, loc1) \<Rightarrow>
             (let st2 = remember_all A (episode_batch loc1) st1 in
              case loop_i st2 of
                None \<Rightarrow> Inl (UnboundLocalError, st2)
              | Some i \<Rightarrow>
                  (let st3 = t_emit [PrintLine ''T'' (ep + 1) (py_int (sum_r loc1)) (sum_q loc1)
                                       (i + 1) (min_d2goal loc1),
                                     AddMergedSummary ep, Flush] st2
                   in if (ep + 1) mod 20 \<noteq> 0 then Inr st3
                      else
                        (case eval_runs G A (py_range 5)
                                (t_emit [PrintBlank] (st3\<lparr>m_eval_score := Some 0\<rparr>)) 0 0 of
                           Inl e \<Rightarrow> Inl e
                         | Inr (st4, m_score, m_q) \<Rightarrow>
                             (let st5 = t_emit [PrintBlank] st4 in
                              if m_score > current_best_eval_score st5
                              then Inr (t_emit [SaverSave ''nb_policy'' ep]
                                          ((t_emit [PrintNewBest m_score,
                                                    PrintOldBest (current_best_eval_score st5)] st5)
                                             \<lparr>current_best_eval_score := m_score\<rparr>))
                              else Inr st5)))))"

fun train_episodes ::
  "'e g2goal_ops \<Rightarrow> 'a agent_ops \<Rightarrow> config \<Rightarrow> int list \<Rightarrow> ('e, 'a) train_state \<Rightarrow>
   ('e, 'a) t_raised + ('e, 'a) train_state" where
  "train_episodes G A c [] st = Inr st"
| "train_episodes G A c (ep # eps) st =
     (case train_episode G A c st ep of
        Inl e \<Rightarrow> Inl e
      | Inr st1 \<Rightarrow> train_episodes G A c eps st1)"

text \<open>
  \<open>train(config)\<close>, from the states \<open>e0\<close> of the new environment and \<open>a0\<close> of the
  new agent; \<open>config["n_episodes"]\<close> raises \<open>KeyError\<close> when the key is missing.
\<close>

definition train_init :: "'e \<Rightarrow> 'a \<Rightarrow> ('e, 'a) train_state" where
  "train_init e0 a0 =
     \<lparr>g_env = e0, ddpg_agent = a0, s_summary = [], current_best_eval_score = 0,
      m_eval_score = None, loop_i = None, loop_j = None, effects = []\<rparr>"

definition train ::
  "'e g2goal_ops \<Rightarrow> 'a agent_ops \<Rightarrow> config \<Rightarrow> 'e \<Rightarrow> 'a \<Rightarrow> ('e, 'a) t_raised + ('e, 'a) train_state" where
  "train G A c e0 a0 =
     (case cfg_n_episodes c of
        None \<Rightarrow> Inl (KeyError, train_init e0 a0)
      | Some n \<Rightarrow> train_episodes G A c (py_range n) (train_init e0 a0))"


section \<open>Runs and observations\<close>

text \<open>The state a call ends in, whether it returned or raised.\<close>

definition final :: "(py_error \<times> 's) + 's \<Rightarrow> 's" where
  "final res = (case res of Inl (e, s) \<Rightarrow> s | Inr s \<Rightarrow> s)"

text \<open>The effects of a call: what \<open>out\<close> holds after it beyond what it held before.\<close>

definition new_events :: "event list \<Rightarrow> event list \<Rightarrow> event list" where
  "new_events before after = drop (length before) after"

text \<open>The state a call that returns the state with a value ends in.\<close>

definition ended :: "(py_error \<times> 's) + ('s \<times> 'r) \<Rightarrow> 's" where
  "ended res = (case res of Inl (e, s) \<Rightarrow> s | Inr (s, r) \<Rightarrow> s)"

text \<open>
  A state that differs from \<open>s\<close> in the environment, the agent and further effects
  only: what the loop of \<open>generate_rollout\<close> may change.
\<close>

definition touch ::
  "('e, 'a) rollout_generator \<Rightarrow> 'e \<Rightarrow> 'a \<Rightarrow> event list \<Rightarrow> ('e, 'a) rollout_generator" where
  "touch s e a evs = s\<lparr>env := e, agent := a, out := out s @ evs\<rparr>"

definition framed :: "('e, 'a) rollout_generator \<Rightarrow> ('e, 'a) rollout_generator \<Rightarrow> bool" where
  "framed s s' = (s' = touch s (env s') (agent s') (new_events (out s) (out s')))"

text \<open>
  The state \<open>finish_rollout\<close> returns when it returns, written out field by field
  (lemma \<open>finish_rollout_Inr\<close> below): \<open>t\<close>, \<open>q\<close> and \<open>r\<close> are the step count and
  the episodic totals, \<open>i\<close> the last \<open>info\<close>.
\<close>

definition finished ::
  "('e, 'a) rollout_generator \<Rightarrow> int \<Rightarrow> real \<Rightarrow> real \<Rightarrow> info_dict \<Rightarrow> ('e, 'a) rollout_generator" where
  "finished s t q r i =
     s\<lparr>episode := episode s + 1,
             q_total := q_total s + q, r_total := r_total s + r, t_steps := t_steps s + t,
             mean_eq := Some ((q_total s + q) / real_of_int (episode s + 1)),
             mean_er := Some ((r_total s + r) / real_of_int (episode s + 1)),
             eval_counter := (if eval s \<and> summary s \<noteq> None then Some (the (eval_counter s) + 1)
                              else eval_counter s),
             success := success s + (if eval s \<and> is_success i then 1 else 0),
             best_score := (if eval s \<and> save_best s \<and>
                                best_score s < (r_total s + r) / real_of_int (episode s + 1)
                             then (r_total s + r) / real_of_int (episode s + 1) else best_score s),
             out := out s @
               (if summary s \<noteq> None
                then [AddSummary [(name s @ ''/episodic_r'', r), (name s @ ''/episodic_q'', q)]
                        (if eval s then the (eval_counter s) + 1 else episode s + 1), Flush]
                else []) @
               (if \<not> eval s then [PrintTrain (name s) (episode s + 1) r q t] else []) @
               (if is_success i then [LogOut ''Reached goal.. hooray?''] else []) @
               (if periodic_ckpt s \<noteq> 0 \<and> (episode s + 1) mod periodic_ckpt s = 0
                then [InfoOut ''Creating periodic checkpoint'', SaverSave ''P'' (episode s + 1)]
                else []) @
               (if eval s \<and> save_best s \<and>
                   best_score s < (r_total s + r) / real_of_int (episode s + 1)
                then [InfoNewBest ((r_total s + r) / real_of_int (episode s + 1)),
                      SaverSave ''B'' (episode s + 1)]
                else [])\<rparr>"

text \<open>
  The public methods of a \<open>RolloutGenerator\<close>, and a sequence of calls that stops at
  the first one that raises.
\<close>

datatype rg_call =
    Reset
  | GenerateRollout
  | CreateCheckpoint
  | UpdateSummaries real real
  | WriteSummary
  | UpdateStats real real int
  | Log real real int
  | Done

fun call ::
  "'e env_ops \<Rightarrow> 'a agent_ops \<Rightarrow> rg_call \<Rightarrow> ('e, 'a) rollout_generator \<Rightarrow>
   ('e, 'a) raised + ('e, 'a) rollout_generator" where
  "call E A Reset s = Inr (reset s)"
| "call E A GenerateRollout s = generate_rollout E A s"
| "call E A CreateCheckpoint s = create_checkpoint s"
| "call E A (UpdateSummaries r q) s = update_summaries s r q"
| "call E A WriteSummary s = write_summary s"
| "call E A (UpdateStats q r t) s = update_stats s q r t"
| "call E A (Log q r t) s = log_rg s q r t"
| "call E A Done s = (case done_rg s of Inl e \<Rightarrow> Inl e | Inr (d, s1) \<Rightarrow> Inr s1)"

fun run ::
  "'e env_ops \<Rightarrow> 'a agent_ops \<Rightarrow> rg_call list \<Rightarrow> ('e, 'a) rollout_generator \<Rightarrow>
   ('e, 'a) raised + ('e, 'a) rollout_generator" where
  "run E A [] s = Inr s"
| "run E A (c # cs) s =
     (case call E A c s of Inl e \<Rightarrow> Inl e | Inr s1 \<Rightarrow> run E A cs s1)"

text \<open>The states a run passes through: the first, and the one each call ends in.\<close>

fun states ::
  "'e env_ops \<Rightarrow> 'a agent_ops \<Rightarrow> rg_call list \<Rightarrow> ('e, 'a) rollout_generator \<Rightarrow>
   ('e, 'a) rollout_generator list" where
  "states E A [] s = [s]"
| "states E A (c # cs) s =
     s # (case call E A c s of Inl (e, s1) \<Rightarrow> [s1] | Inr s1 \<Rightarrow> states E A cs s1)"

text \<open>The same for the episodes of \<open>train\<close>.\<close>

fun train_states ::
  "'e g2goal_ops \<Rightarrow> 'a agent_ops \<Rightarrow> config \<Rightarrow> int list \<Rightarrow> ('e, 'a) train_state \<Rightarrow>
   ('e, 'a) train_state list" where
  "train_states G A c [] st = [st]"
| "train_states G A c (ep # eps) st =
     st # (case train_episode G A c st ep of
             Inl (e, st1) \<Rightarrow> [st1]
           | Inr st1 \<Rightarrow> train_states G A c eps st1)"

text \<open>
  Readings of a list of effects: the episodes of the checkpoints saved under a category,
  the transitions remembered, the actions the environment was stepped with, the number of
  training calls, and the summaries added.
\<close>

definition saves :: "string \<Rightarrow> event list \<Rightarrow> int list" where
  "saves c evs =
     concat (map (\<lambda>e. case e of SaverSave c' n \<Rightarrow> (if c' = c then [n] else []) | _ \<Rightarrow> []) evs)"

definition remembered :: "event list \<Rightarrow> transition list" where
  "remembered evs = concat (map (\<lambda>e. case e of Remember tr \<Rightarrow> [tr] | _ \<Rightarrow> []) evs)"

definition env_steps :: "event list \<Rightarrow> array list" where
  "env_steps evs = concat (map (\<lambda>e. case e of EnvStep a \<Rightarrow> [a] | _ \<Rightarrow> []) evs)"

definition trainings :: "event list \<Rightarrow> nat" where
  "trainings evs = length (filter (\<lambda>e. e = AgentTrain) evs)"

definition summaries :: "event list \<Rightarrow> ((string \<times> real) list \<times> int) list" where
  "summaries evs = concat (map (\<lambda>e. case e of AddSummary vs n \<Rightarrow> [(vs, n)] | _ \<Rightarrow> []) evs)"

text \<open>
  The shape of a remembered transition: eight fields, the reward fifth and the done
  flag, 0 or 1, last.
\<close>

definition well_formed :: "transition \<Rightarrow> bool" where
  "well_formed tr =
     (case tr of
        [Arr o1, Arr g1, Arr a1, Arr u, Rew r, Arr o2, Arr g2, Flag f] \<Rightarrow> f = 0 \<or> f = 1
      | _ \<Rightarrow> False)"

section \<open>Test doubles\<close>

text \<open>
  A scripted environment: its state is the list of the answers \<open>(reward, done, success)\<close>
  it will give to the next steps; once the script is used up it answers \<open>(0, True, False)\<close>.
  The agent double counts its training calls and always answers \<open>([0, 0], [0, 0], 0)\<close>.
\<close>

definition obs0 :: obs_dict where
  "obs0 = \<lparr>observation = [0], desired_goal = [1], achieved_goal = [0]\<rparr>"

definition script_env :: "int \<Rightarrow> (real \<times> bool \<times> bool) list env_ops" where
  "script_env cap =
     \<lparr>env_reset = (\<lambda>e. (obs0, e)),
      env_step = (\<lambda>e a. case e of
                     [] \<Rightarrow> ((obs0, 0, True, \<lparr>is_success = False, dist = 0\<rparr>), [])
                   | (r, d, sc) # rest \<Rightarrow> ((obs0, r, d, \<lparr>is_success = sc, dist = 0\<rparr>), rest)),
      env_render = (\<lambda>e. e),
      max_episode_steps = cap\<rparr>"

definition g_obs0 :: g2g_obs where
  "g_obs0 = \<lparr>obs = [0], goal = [1], ag = [0]\<rparr>"

definition script_g2goal :: "int \<Rightarrow> (real \<times> bool \<times> bool) list g2goal_ops" where
  "script_g2goal cap =
     \<lparr>g_reset = (\<lambda>e. (g_obs0, e)),
      g_step = (\<lambda>e a. case e of
                   [] \<Rightarrow> ((g_obs0, 0, True, \<lparr>is_success = False, dist = 0\<rparr>), [])
                 | (r, d, sc) # rest \<Rightarrow> ((g_obs0, r, d, \<lparr>is_success = sc, dist = 0\<rparr>), rest)),
      g_render = (\<lambda>e. e),
      get_current_distance = (\<lambda>e. 1),
      g_max_episode_steps = cap,
      is_u_discrete = False\<rparr>"

definition stub_agent :: "nat agent_ops" where
  "stub_agent =
     \<lparr>agent_step = (\<lambda>a inp du ex. (([0, 0], [0, 0], 0), a)),
      agent_remember = (\<lambda>a tr. a),
      agent_train = Suc\<rparr>"

definition test_config :: "int \<Rightarrow> bool \<Rightarrow> config" where
  "test_config period best =
     \<lparr>cfg_render = Some False, cfg_train_cycles_per_ts = Some 2,
      cfg_periodic_ckpt = Some period, cfg_save_best = Some best,
      cfg_n_episodes = Some 3, cfg_step_sleep = None\<rparr>"


text \<open>A generator on the scripted environment, with a summary writer.\<close>

definition test_generator ::
  "(real \<times> bool \<times> bool) list \<Rightarrow> config \<Rightarrow> bool \<Rightarrow>
   ((real \<times> bool \<times> bool) list, nat) rollout_generator" where
  "test_generator script c ev = init script 0 c ev (Some ''w'')"

section \<open>Lemmas on the readings and the loops\<close>

lemma saves_Nil [simp]: "saves c [] = []"
  by (simp add: saves_def)

lemma saves_append [simp]: "saves c (xs @ ys) = saves c xs @ saves c ys"
  by (simp add: saves_def)

lemma saves_Cons [simp]:
  "saves c (e # evs) =
     (case e of SaverSave c' n \<Rightarrow> (if c' = c then [n] else []) | _ \<Rightarrow> []) @ saves c evs"
  by (simp add: saves_def)

lemma remembered_Nil [simp]: "remembered [] = []"
  by (simp add: remembered_def)

lemma remembered_append [simp]: "remembered (xs @ ys) = remembered xs @ remembered ys"
  by (simp add: remembered_def)

lemma remembered_Cons [simp]:
  "remembered (e # evs) = (case e of Remember tr \<Rightarrow> [tr] | _ \<Rightarrow> []) @ remembered evs"
  by (simp add: remembered_def)

lemma env_steps_Nil [simp]: "env_steps [] = []"
  by (simp add: env_steps_def)

lemma env_steps_append [simp]: "env_steps (xs @ ys) = env_steps xs @ env_steps ys"
  by (simp add: env_steps_def)

lemma env_steps_Cons [simp]:
  "env_steps (e # evs) = (case e of EnvStep a \<Rightarrow> [a] | _ \<Rightarrow> []) @ env_steps evs"
  by (simp add: env_steps_def)

lemma summaries_Nil [simp]: "summaries [] = []"
  by (simp add: summaries_def)

lemma summaries_append [simp]: "summaries (xs @ ys) = summaries xs @ summaries ys"
  by (simp add: summaries_def)

lemma summaries_Cons [simp]:
  "summaries (e # evs) = (case e of AddSummary vs n \<Rightarrow> [(vs, n)] | _ \<Rightarrow> []) @ summaries evs"
  by (simp add: summaries_def)

lemma trainings_Nil [simp]: "trainings [] = 0"
  by (simp add: trainings_def)

lemma trainings_append [simp]: "trainings (xs @ ys) = trainings xs + trainings ys"
  by (simp add: trainings_def)

lemma trainings_Cons [simp]:
  "trainings (e # evs) = (if e = AgentTrain then 1 else 0) + trainings evs"
  by (simp add: trainings_def)

lemma new_events_append [simp]: "new_events xs (xs @ ys) = ys"
  by (simp add: new_events_def)

lemma new_events_same [simp]: "new_events xs xs = []"
  by (simp add: new_events_def)

lemma out_emit [simp]: "out (emit evs s) = out s @ evs"
  by (simp add: emit_def)

lemma final_simps [simp]: "final (Inl (e, s)) = s" "final (Inr s) = s"
  by (simp_all add: final_def)

lemma length_py_range [simp]: "length (py_range n) = nat n"
  by (simp add: py_range_def)

lemma train_cycles_eq:
  "train_cycles A js (a0, evs) =
     ((agent_train A ^^ length js) a0, evs @ replicate (length js) AgentTrain)"
proof (induction js arbitrary: a0 evs)
  case Nil
  show ?case by simp
next
  case (Cons j js)
  show ?case
    by (simp add: Cons.IH funpow_swap1 replicate_append_same)
qed

lemma saves_replicate_train [simp]: "saves c (replicate n AgentTrain) = []"
  by (induction n) simp_all

lemma remembered_replicate_train [simp]: "remembered (replicate n AgentTrain) = []"
  by (induction n) simp_all

lemma env_steps_replicate_train [simp]: "env_steps (replicate n AgentTrain) = []"
  by (induction n) simp_all

lemma summaries_replicate_train [simp]: "summaries (replicate n AgentTrain) = []"
  by (induction n) simp_all

lemma trainings_replicate_train [simp]: "trainings (replicate n AgentTrain) = n"
  by (induction n) simp_all

lemma ended_simps [simp]: "ended (Inl (e, s)) = s" "ended (Inr (s, r)) = s"
  by (simp_all add: ended_def)

lemma touch_fields [simp]:
  "name (touch s e a evs) = name s"
  "env (touch s e a evs) = e"
  "agent (touch s e a evs) = a"
  "eval (touch s e a evs) = eval s"
  "best_score (touch s e a evs) = best_score s"
  "summary_writer (touch s e a evs) = summary_writer s"
  "summary (touch s e a evs) = summary s"
  "eval_counter (touch s e a evs) = eval_counter s"
  "render (touch s e a evs) = render s"
  "train_cycles_per_ts (touch s e a evs) = train_cycles_per_ts s"
  "periodic_ckpt (touch s e a evs) = periodic_ckpt s"
  "save_best (touch s e a evs) = save_best s"
  "n_episodes (touch s e a evs) = n_episodes s"
  "step_sleep (touch s e a evs) = step_sleep s"
  "q_total (touch s e a evs) = q_total s"
  "r_total (touch s e a evs) = r_total s"
  "t_steps (touch s e a evs) = t_steps s"
  "episode (touch s e a evs) = episode s"
  "success (touch s e a evs) = success s"
  "mean_eq (touch s e a evs) = mean_eq s"
  "mean_er (touch s e a evs) = mean_er s"
  "out (touch s e a evs) = out s @ evs"
  by (simp_all add: touch_def)

lemma touch_touch [simp]: "touch (touch s e a evs) e' a' evs' = touch s e' a' (evs @ evs')"
  by (simp add: touch_def)

lemma touch_id: "s = touch s (env s) (agent s) []"
  by (simp add: touch_def)

lemma emit_touch: "emit evs' (touch s e a evs) = touch s e a (evs @ evs')"
  by (simp add: touch_def emit_def)

lemma new_events_append2 [simp]: "new_events (xs @ ys) (xs @ ys @ zs) = zs"
  by (simp add: new_events_def)

lemma framed_touch [simp]: "framed s (touch s e a evs)"
  by (simp add: framed_def)

lemma framed_refl [simp]: "framed s s"
  using framed_touch [of s "env s" "agent s" "[]"] by (simp add: touch_def)

lemma framedD: "framed s s' \<Longrightarrow> \<exists>e a evs. s' = touch s e a evs"
  unfolding framed_def by blast

lemma framed_trans:
  assumes "framed s s1" and "framed s1 s2"
  shows "framed s s2"
    and "new_events (out s) (out s2) = new_events (out s) (out s1) @ new_events (out s1) (out s2)"
proof -
  obtain e a evs where 1: "s1 = touch s e a evs" using assms(1) framedD by blast
  obtain e' a' evs' where 2: "s2 = touch s1 e' a' evs'" using assms(2) framedD by blast
  show "framed s s2" by (simp add: 1 2)
  show "new_events (out s) (out s2) = new_events (out s) (out s1) @ new_events (out s1) (out s2)"
    by (simp add: 1 2)
qed

lemma rollout_body_normal:
  assumes as: "agent_step A (agent s) (observation x @ desired_goal x) None (Some (\<not> eval s)) = ((a, u, q), ag1)"
    and es: "env_step E (env s) a = ((x2, r, d, info), e1)"
    and evs: "evs = [AgentStep (observation x @ desired_goal x) None (Some (\<not> eval s)), EnvStep a,
           Remember (transition_of x u r x2 d)]"
    and ag2: "ag2 = agent_remember A ag1 (transition_of x u r x2 d)"
  shows "rollout_body E A s x =
     (case render s of
        None \<Rightarrow> Inl (AttributeError, touch s e1 ag2 evs)
      | Some rd \<Rightarrow>
          (let e2 = (if rd then env_render E e1 else e1);
               evs2 = evs @ (if rd then [EnvRender] else [])
           in if eval s then
                (case step_sleep s of
                   None \<Rightarrow> Inr (touch s e2 ag2 evs2, x2, r, q, d, info)
                 | Some sl \<Rightarrow>
                     if sl < 0 then Inl (ValueError, touch s e2 ag2 evs2)
                     else Inr (touch s e2 ag2 (evs2 @ [Sleep sl]), x2, r, q, d, info))
              else
                (case train_cycles_per_ts s of
                   None \<Rightarrow> Inl (AttributeError, touch s e2 ag2 evs2)
                 | Some n \<Rightarrow>
                     Inr (touch s e2 ((agent_train A ^^ nat n) ag2)
                            (evs2 @ replicate (nat n) AgentTrain), x2, r, q, d, info))))"
proof -
  have 1: "step_and_remember E A s x = (touch s e1 ag2 evs, x2, r, q, d, info)"
    by (simp add: step_and_remember_def Let_def as es evs ag2 touch_def emit_def)
  have 2: "render_if_required E (touch s e1 ag2 evs) =
     (case render s of None \<Rightarrow> Inl (AttributeError, touch s e1 ag2 evs)
      | Some rd \<Rightarrow> Inr (touch s (if rd then env_render E e1 else e1) ag2 (evs @ (if rd then [EnvRender] else []))))"
    by (simp add: render_if_required_def emit_touch touch_def emit_def split: option.split)
  have 3: "train_if_required A (touch s e2 ag2 evs2) =
     (if eval s then
                (case step_sleep s of
                   None \<Rightarrow> Inr (touch s e2 ag2 evs2)
                 | Some sl \<Rightarrow>
                     if sl < 0 then Inl (ValueError, touch s e2 ag2 evs2)
                     else Inr (touch s e2 ag2 (evs2 @ [Sleep sl])))
              else
                (case train_cycles_per_ts s of
                   None \<Rightarrow> Inl (AttributeError, touch s e2 ag2 evs2)
                 | Some n \<Rightarrow>
                     Inr (touch s e2 ((agent_train A ^^ nat n) ag2)
                            (evs2 @ replicate (nat n) AgentTrain))))" for e2 evs2
    by (simp add: train_if_required_def truthy_str_def train_cycles_eq emit_touch touch_def emit_def
          split: option.split)
  show ?thesis
    by (simp add: rollout_body_def 1 2 3 Let_def split: option.split)
qed


lemma well_formed_transition_of [simp]: "well_formed (transition_of x u r x2 d)"
  by (simp add: well_formed_def transition_of_def)

lemma rollout_body_facts:
  fixes E A s x
  defines "s' \<equiv> ended (rollout_body E A s x)"
  defines "new \<equiv> new_events (out s) (out s')"
  shows "framed s s'"
    and "length (env_steps new) = 1"
    and "length (remembered new) = 1"
    and "list_all well_formed (remembered new)"
    and "saves c new = []"
    and "summaries new = []"
    and "rollout_body E A s x = Inr (s1, y) \<Longrightarrow>
           trainings new = (if eval s then 0 else nat (the (train_cycles_per_ts s)))"
    and "rollout_body E A s x \<noteq> Inl (AssertionError, s2)"
proof -
  obtain a u q ag1 where as:
    "agent_step A (agent s) (observation x @ desired_goal x) None (Some (\<not> eval s)) = ((a, u, q), ag1)"
    by (cases "agent_step A (agent s) (observation x @ desired_goal x) None (Some (\<not> eval s))") auto
  obtain x2 r d info e1 where es: "env_step E (env s) a = ((x2, r, d, info), e1)"
    by (cases "env_step E (env s) a") auto
  note nf = rollout_body_normal [OF as es refl refl]
  show "framed s s'"
    unfolding s'_def nf by (simp add: Let_def split: option.split)
  show "length (env_steps new) = 1"
    unfolding new_def s'_def nf by (simp add: Let_def split: option.split)
  show "length (remembered new) = 1"
    unfolding new_def s'_def nf by (simp add: Let_def split: option.split)
  show "list_all well_formed (remembered new)"
    unfolding new_def s'_def nf by (simp add: Let_def split: option.split)
  show "saves c new = []"
    unfolding new_def s'_def nf by (simp add: Let_def split: option.split)
  show "summaries new = []"
    unfolding new_def s'_def nf by (simp add: Let_def split: option.split)
  show "rollout_body E A s x = Inr (s1, y) \<Longrightarrow>
           trainings new = (if eval s then 0 else nat (the (train_cycles_per_ts s)))"
    unfolding new_def s'_def nf by (auto simp add: Let_def split: option.splits if_splits)
  show "rollout_body E A s x \<noteq> Inl (AssertionError, s2)"
    unfolding nf by (simp add: Let_def split: option.split)
qed


lemma framed_fields:
  assumes "framed s s'"
  shows "name s' = name s" "eval s' = eval s" "best_score s' = best_score s"
    "summary_writer s' = summary_writer s" "summary s' = summary s"
    "eval_counter s' = eval_counter s" "render s' = render s"
    "train_cycles_per_ts s' = train_cycles_per_ts s" "periodic_ckpt s' = periodic_ckpt s"
    "save_best s' = save_best s" "n_episodes s' = n_episodes s" "step_sleep s' = step_sleep s"
    "q_total s' = q_total s" "r_total s' = r_total s" "t_steps s' = t_steps s"
    "episode s' = episode s" "success s' = success s" "mean_eq s' = mean_eq s"
    "mean_er s' = mean_er s" "out s' = out s @ new_events (out s) (out s')"
proof -
  obtain e a evs where "s' = touch s e a evs" using assms framedD by blast
  then show "name s' = name s" "eval s' = eval s" "best_score s' = best_score s"
    "summary_writer s' = summary_writer s" "summary s' = summary s"
    "eval_counter s' = eval_counter s" "render s' = render s"
    "train_cycles_per_ts s' = train_cycles_per_ts s" "periodic_ckpt s' = periodic_ckpt s"
    "save_best s' = save_best s" "n_episodes s' = n_episodes s" "step_sleep s' = step_sleep s"
    "q_total s' = q_total s" "r_total s' = r_total s" "t_steps s' = t_steps s"
    "episode s' = episode s" "success s' = success s" "mean_eq s' = mean_eq s"
    "mean_er s' = mean_er s" "out s' = out s @ new_events (out s) (out s')"
    by simp_all
qed

lemma rollout_loop_cases [case_names stop raise step]:
  assumes "\<And>s x t d eq er info. \<not> (\<not> d \<and> t < max_episode_steps E) \<Longrightarrow> P s x t d eq er info"
    and "\<And>s x t d eq er info e. \<not> d \<Longrightarrow> t < max_episode_steps E \<Longrightarrow>
           rollout_body E A s x = Inl e \<Longrightarrow> P s x t d eq er info"
    and "\<And>s x t d eq er info s1 x2 r q d2 info2. \<not> d \<Longrightarrow> t < max_episode_steps E \<Longrightarrow>
           rollout_body E A s x = Inr (s1, x2, r, q, d2, info2) \<Longrightarrow>
           P s1 x2 (t + 1) d2 (eq + q) (er + r) (Some info2) \<Longrightarrow> P s x t d eq er info"
  shows "P s x t d eq er info"
  using assms
proof (induction E A s x t d eq er info rule: rollout_loop.induct)
  case (1 E A s x t d eq er info)
  show ?case
  proof (cases "\<not> d \<and> t < max_episode_steps E")
    case False
    then show ?thesis using "1.prems"(1) by blast
  next
    case True
    show ?thesis
    proof (cases "rollout_body E A s x")
      case (Inl e)
      then show ?thesis using True "1.prems"(2) by blast
    next
      case (Inr b)
      obtain s1 x2 r q d2 info2 where b: "b = (s1, x2, r, q, d2, info2)"
        by (cases b) auto
      have "P s1 x2 (t + 1) d2 (eq + q) (er + r) (Some info2)"
        using "1.IH" [OF True Inr] b "1.prems" by blast
      then show ?thesis using True Inr b "1.prems"(3) by blast
    qed
  qed
qed

lemma ended_Inl [simp]: "ended (Inl e) = snd e"
  by (cases e) simp

lemma rollout_loop_facts:
  "framed s (ended (rollout_loop E A s x t d eq er info)) \<and>
   length (remembered (new_events (out s) (out (ended (rollout_loop E A s x t d eq er info))))) =
     length (env_steps (new_events (out s) (out (ended (rollout_loop E A s x t d eq er info))))) \<and>
   int (length (env_steps (new_events (out s) (out (ended (rollout_loop E A s x t d eq er info))))))
     \<le> max 0 (max_episode_steps E - t) \<and>
   list_all well_formed
     (remembered (new_events (out s) (out (ended (rollout_loop E A s x t d eq er info))))) \<and>
   saves c (new_events (out s) (out (ended (rollout_loop E A s x t d eq er info)))) = [] \<and>
   summaries (new_events (out s) (out (ended (rollout_loop E A s x t d eq er info)))) = [] \<and>
   (\<forall>s2. rollout_loop E A s x t d eq er info \<noteq> Inl (AssertionError, s2)) \<and>
   (\<forall>s1 t1 q1 r1 info1. rollout_loop E A s x t d eq er info = Inr (s1, t1, q1, r1, info1) \<longrightarrow>
      t1 = t + int (length (env_steps (new_events (out s) (out s1)))) \<and>
      trainings (new_events (out s) (out s1)) =
        (if eval s then 0 else nat (the (train_cycles_per_ts s))) * length (env_steps (new_events (out s) (out s1))) \<and>
      (info1 = None \<longrightarrow> info = None \<and> s1 = s))"
  (is "?P s x t d eq er info")
proof (induct s x t d eq er info rule: rollout_loop_cases [where E = E and A = A])
  case (stop s x t d eq er info)
  then have "rollout_loop E A s x t d eq er info = Inr (s, t, eq, er, info)"
    by (subst rollout_loop.simps) auto
  then show ?case by simp
next
  case (raise s x t d eq er info e)
  have l: "rollout_loop E A s x t d eq er info = Inl e"
    using raise by (simp add: rollout_loop.simps)
  have f: "ended (rollout_loop E A s x t d eq er info) =
           ended (rollout_body E A s x)"
    using raise l by simp
  obtain err sb where e: "e = (err, sb)" by (cases e)
  show ?case
    unfolding f
    using rollout_body_facts [where E = E and A = A and s = s and x = x] raise(2) l e raise(3)
    by simp
next
  case (step s x t d eq er info s1 x2 r q d2 info2)
  let ?l = "rollout_loop E A s1 x2 (t + 1) d2 (eq + q) (er + r) (Some info2)"
  let ?s' = "ended ?l"
  have l: "rollout_loop E A s x t d eq er info = ?l"
    using step(1,2,3) by (simp add: rollout_loop.simps)
  have sb: "ended (rollout_body E A s x) = s1"
    using step(3) by simp
  note bf = rollout_body_facts [where E = E and A = A and s = s and x = x, unfolded sb]
  note ih = step(4)
  note i2 = ih [THEN conjunct2, THEN conjunct1]
  note i3 = ih [THEN conjunct2, THEN conjunct2, THEN conjunct1]
  note i4 = ih [THEN conjunct2, THEN conjunct2, THEN conjunct2, THEN conjunct1]
  note i5 = ih [THEN conjunct2, THEN conjunct2, THEN conjunct2, THEN conjunct2, THEN conjunct1]
  note i6 = ih [THEN conjunct2, THEN conjunct2, THEN conjunct2, THEN conjunct2, THEN conjunct2,
                THEN conjunct1]
  have fr1: "framed s s1" by (rule bf(1))
  have fr2: "framed s1 ?s'" by (rule ih [THEN conjunct1])
  note tr = framed_trans [OF fr1 fr2]
  note ff = framed_fields [OF fr1]
  have ret: "trainings (new_events (out s) (out s1)) = (if eval s then 0 else nat (the (train_cycles_per_ts s)))"
    using bf(7) [OF step(3)] .
  have c1: "framed s ?s'" by (rule tr(1))
  have c2: "length (remembered (new_events (out s) (out ?s'))) = length (env_steps (new_events (out s) (out ?s')))"
    using i2 bf(2,3) by (simp add: tr(2))
  have c3: "int (length (env_steps (new_events (out s) (out ?s')))) \<le> max 0 (max_episode_steps E - t)"
    using i3 bf(2) step(2) by (simp add: tr(2))
  have c4: "list_all well_formed (remembered (new_events (out s) (out ?s')))"
    using i4 bf(4) by (simp add: tr(2))
  have c5: "saves c (new_events (out s) (out ?s')) = []"
    using i5 bf(5) by (simp add: tr(2))
  have c6: "summaries (new_events (out s) (out ?s')) = []"
    using i6 bf(6) by (simp add: tr(2))
  have c7: "\<forall>s2. ?l \<noteq> Inl (AssertionError, s2)"
    using ih by blast
  have c8: "\<forall>s3 t1 q1 r1 info1. ?l = Inr (s3, t1, q1, r1, info1) \<longrightarrow>
      t1 = t + int (length (env_steps (new_events (out s) (out s3)))) \<and>
      trainings (new_events (out s) (out s3)) =
        (if eval s then 0 else nat (the (train_cycles_per_ts s))) * length (env_steps (new_events (out s) (out s3))) \<and>
      (info1 = None \<longrightarrow> info = None \<and> s3 = s)"
  proof (intro allI impI)
    fix s3 t1 q1 r1 info1
    assume a: "?l = Inr (s3, t1, q1, r1, info1)"
    then have s3: "?s' = s3" by simp
    from ih a have 1: "t1 = t + 1 + int (length (env_steps (new_events (out s1) (out s3))))"
      and 2: "trainings (new_events (out s1) (out s3)) =
        (if eval s1 then 0 else nat (the (train_cycles_per_ts s1))) * length (env_steps (new_events (out s1) (out s3)))"
      and 3: "info1 \<noteq> None"
      by auto
    show "t1 = t + int (length (env_steps (new_events (out s) (out s3)))) \<and>
      trainings (new_events (out s) (out s3)) =
        (if eval s then 0 else nat (the (train_cycles_per_ts s))) * length (env_steps (new_events (out s) (out s3))) \<and>
      (info1 = None \<longrightarrow> info = None \<and> s3 = s)"
      using 1 2 3 bf(2) ret tr(2) [unfolded s3] ff(2,8) by auto
  qed
  show ?case
    unfolding l using c1 c2 c3 c4 c5 c6 c7 c8 by blast
qed

lemma update_stats_Inr:
  assumes "update_stats s q r t = Inr s'"
  shows "episode s \<noteq> 0"
    and "s' = s\<lparr>q_total := q_total s + q, r_total := r_total s + r, t_steps := t_steps s + t,
                 mean_eq := Some ((q_total s + q) / real_of_int (episode s)),
                 mean_er := Some ((r_total s + r) / real_of_int (episode s))\<rparr>"
  using assms by (auto simp: update_stats_def Let_def split: if_splits)

lemma update_stats_Inl:
  assumes "update_stats s q r t = Inl (e, s')"
  shows "e = ZeroDivisionError" and "episode s = 0"
    and "s' = s\<lparr>q_total := q_total s + q, r_total := r_total s + r, t_steps := t_steps s + t\<rparr>"
  using assms by (auto simp: update_stats_def Let_def split: if_splits)

lemma update_summaries_Inr:
  assumes "update_summaries s r q = Inr s'"
  shows "summary_writer s \<noteq> None"
    and "eval s \<Longrightarrow> eval_counter s \<noteq> None"
    and "s' = s\<lparr>eval_counter := (if eval s then Some (the (eval_counter s) + 1) else eval_counter s),
                 out := out s @ [AddSummary [(name s @ ''/episodic_r'', r), (name s @ ''/episodic_q'', q)]
                                   (if eval s then the (eval_counter s) + 1 else episode s),
                                 Flush]\<rparr>"
  using assms
  by (auto simp: update_summaries_def emit_def split: if_splits option.splits)

lemma update_summaries_Inl:
  assumes "update_summaries s r q = Inl (e, s')"
  shows "e = AttributeError"
    and "summary_writer s = None \<or> eval s \<and> eval_counter s = None"
    and "s' = s\<lparr>eval_counter := (if eval s then map_option (\<lambda>c. c + 1) (eval_counter s)
                                   else eval_counter s)\<rparr>"
  using assms
  by (auto simp: update_summaries_def emit_def split: if_splits option.splits)

lemma update_summaries_None:
  assumes "summary_writer s = None"
  shows "\<exists>s'. update_summaries s r q = Inl (AttributeError, s')"
  using assms
  by (auto simp: update_summaries_def emit_def split: if_splits option.splits)

lemma log_rg_train: "\<not> eval s \<Longrightarrow> log_rg s q r t = Inr (emit [PrintTrain (name s) (episode s) r q t] s)"
  by (simp add: log_rg_def)

lemma log_rg_Inr:
  assumes "log_rg s q r t = Inr s'"
  shows "s' = s\<lparr>out := out s @
            (if eval s
             then [PrintBlank,
                   InfoEval r q t (100 * (real_of_int (success s) / real_of_int (the (n_episodes s)))),
                   PrintBlank]
             else [PrintTrain (name s) (episode s) r q t])\<rparr>"
    and "eval s \<Longrightarrow> n_episodes s \<noteq> None \<and> n_episodes s \<noteq> Some 0"
  using assms
  by (auto simp: log_rg_def emit_def Let_def split: if_splits option.splits)

lemma log_rg_Inl:
  assumes "log_rg s q r t = Inl (e, s')"
  shows "eval s" and "s' = s\<lparr>out := out s @ [PrintBlank]\<rparr>"
    and "n_episodes s = None \<and> e = AttributeError \<or> n_episodes s = Some 0 \<and> e = ZeroDivisionError"
  using assms
  by (auto simp: log_rg_def emit_def Let_def split: if_splits option.splits)

lemma report_success_eq:
  "report_success s i =
     s\<lparr>success := success s + (if eval s \<and> is_success i then 1 else 0),
       out := out s @ (if is_success i then [LogOut ''Reached goal.. hooray?''] else [])\<rparr>"
  by (simp add: report_success_def emit_def Let_def)

lemma create_checkpoint_Inr:
  assumes "create_checkpoint s = Inr s'"
  shows "eval s \<and> save_best s \<Longrightarrow> mean_er s \<noteq> None"
    and "s' = s\<lparr>best_score := (if eval s \<and> save_best s \<and> best_score s < the (mean_er s)
                                then the (mean_er s) else best_score s),
                 out := out s @
                   (if periodic_ckpt s \<noteq> 0 \<and> episode s mod periodic_ckpt s = 0
                    then [InfoOut ''Creating periodic checkpoint'', SaverSave ''P'' (episode s)]
                    else []) @
                   (if eval s \<and> save_best s \<and> best_score s < the (mean_er s)
                    then [InfoNewBest (the (mean_er s)), SaverSave ''B'' (episode s)] else [])\<rparr>"
proof -
  have "(eval s \<and> save_best s \<longrightarrow> mean_er s \<noteq> None) \<and>
     s' = s\<lparr>best_score := (if eval s \<and> save_best s \<and> best_score s < the (mean_er s)
                                then the (mean_er s) else best_score s),
                 out := out s @
                   (if periodic_ckpt s \<noteq> 0 \<and> episode s mod periodic_ckpt s = 0
                    then [InfoOut ''Creating periodic checkpoint'', SaverSave ''P'' (episode s)]
                    else []) @
                   (if eval s \<and> save_best s \<and> best_score s < the (mean_er s)
                    then [InfoNewBest (the (mean_er s)), SaverSave ''B'' (episode s)] else [])\<rparr>"
    using assms
    by (cases "eval s"; cases "save_best s"; cases "mean_er s";
        cases "periodic_ckpt s = 0"; cases "episode s mod periodic_ckpt s = 0";
        cases "best_score s < the (mean_er s)")
       (auto simp add: create_checkpoint_def emit_def Let_def)
  then show "eval s \<and> save_best s \<Longrightarrow> mean_er s \<noteq> None"
    and "s' = s\<lparr>best_score := (if eval s \<and> save_best s \<and> best_score s < the (mean_er s)
                                then the (mean_er s) else best_score s),
                 out := out s @
                   (if periodic_ckpt s \<noteq> 0 \<and> episode s mod periodic_ckpt s = 0
                    then [InfoOut ''Creating periodic checkpoint'', SaverSave ''P'' (episode s)]
                    else []) @
                   (if eval s \<and> save_best s \<and> best_score s < the (mean_er s)
                    then [InfoNewBest (the (mean_er s)), SaverSave ''B'' (episode s)] else [])\<rparr>"
    by blast+
qed

lemma create_checkpoint_Inl:
  assumes "create_checkpoint s = Inl (e, s')"
  shows "e = AttributeError" and "eval s" and "save_best s" and "mean_er s = None"
    and "s' = s\<lparr>out := out s @
                   (if periodic_ckpt s \<noteq> 0 \<and> episode s mod periodic_ckpt s = 0
                    then [InfoOut ''Creating periodic checkpoint'', SaverSave ''P'' (episode s)]
                    else [])\<rparr>"
  using assms
  by (auto simp: create_checkpoint_def emit_def Let_def split: if_splits option.splits)

lemma create_checkpoint_returns:
  assumes "mean_er s \<noteq> None"
  shows "\<exists>s'. create_checkpoint s = Inr s'"
  using assms
  by (auto simp: create_checkpoint_def emit_def Let_def split: if_splits option.splits)

lemma finish_rollout_stages:
  assumes "finish_rollout s t q r info = Inr s'"
  obtains s1 s2 s3 i where
    "update_stats (s\<lparr>episode := episode s + 1\<rparr>) q r t = Inr s1"
    "(if summary s1 \<noteq> None then update_summaries s1 r q else Inr s1) = Inr s2"
    "(if \<not> eval s2 then log_rg s2 q r t else Inr s2) = Inr s3"
    "info = Some i"
    "create_checkpoint (report_success s3 i) = Inr s'"
  using assms unfolding finish_rollout_def
  by (auto split: sum.splits option.splits)

lemma finish_rollout_Inr:
  assumes "finish_rollout s t q r info = Inr s'"
  shows "\<exists>i. info = Some i \<and> s' = finished s t q r i"
    and "episode s + 1 \<noteq> 0"
    and "summary s \<noteq> None \<Longrightarrow> summary_writer s \<noteq> None"
proof -
  obtain s1 s2 s3 i where
    us: "update_stats (s\<lparr>episode := episode s + 1\<rparr>) q r t = Inr s1" and
    sm: "(if summary s1 \<noteq> None then update_summaries s1 r q else Inr s1) = Inr s2" and
    lg: "(if \<not> eval s2 then log_rg s2 q r t else Inr s2) = Inr s3" and
    i: "info = Some i" and
    cc: "create_checkpoint (report_success s3 i) = Inr s'"
    using finish_rollout_stages [OF assms] by blast
  note s1 = update_stats_Inr(2) [OF us, simplified]
  show ep: "episode s + 1 \<noteq> 0"
    using update_stats_Inr(1) [OF us] by simp
  have sum1: "summary s1 = summary s" "eval s1 = eval s" "summary_writer s1 = summary_writer s"
    by (simp_all add: s1)
  show w: "summary s \<noteq> None \<Longrightarrow> summary_writer s \<noteq> None"
    using sm update_summaries_Inr(1) [of s1 r q s2] sum1 by (simp split: if_splits)
  have s2: "s2 = s1\<lparr>eval_counter := (if eval s \<and> summary s \<noteq> None then Some (the (eval_counter s) + 1)
                              else eval_counter s),
                out := out s @
               (if summary s \<noteq> None
                then [AddSummary [(name s @ ''/episodic_r'', r), (name s @ ''/episodic_q'', q)]
                        (if eval s then the (eval_counter s) + 1 else episode s + 1), Flush]
                else [])\<rparr>"
  proof (cases "summary s = None")
    case True
    then have "s2 = s1" using sm sum1 by simp
    then show ?thesis using True by (simp add: s1)
  next
    case False
    then have "update_summaries s1 r q = Inr s2" using sm sum1 by simp
    from update_summaries_Inr(3) [OF this] show ?thesis
      using False by (simp add: s1)
  qed
  have ev2: "eval s2 = eval s" by (simp add: s2 s1)
  have s3: "s3 = s2\<lparr>out := out s2 @ (if \<not> eval s then [PrintTrain (name s) (episode s + 1) r q t] else [])\<rparr>"
  proof (cases "eval s")
    case True
    then show ?thesis using lg ev2 by simp
  next
    case False
    then have "log_rg s2 q r t = Inr s3" using lg ev2 by simp
    from log_rg_Inr(1) [OF this] show ?thesis
      using False ev2 by (simp add: s2 s1)
  qed
  note s' = create_checkpoint_Inr(2) [OF cc]
  have "s' = finished s t q r i"
    unfolding finished_def by (subst s') (simp add: report_success_eq s3 s2 s1)
  with i show "\<exists>i. info = Some i \<and> s' = finished s t q r i"
    by blast
qed

lemma finish_rollout_Inr_Some:
  assumes "finish_rollout s t q r (Some i) = Inr s'"
  shows "s' = finished s t q r i"
proof -
  from finish_rollout_Inr(1) [OF assms] obtain j where j: "Some i = Some j"
    and s': "s' = finished s t q r j" by blast
  from j have "j = i" by simp
  then show ?thesis using s' by (simp only:)
qed

lemma finish_rollout_Inl:
  assumes "finish_rollout s t q r info = Inl (e, s')"
  shows "best_score s' = best_score s \<and> success s' = success s \<and>
         e \<noteq> AssertionError \<and> e \<noteq> ValueError \<and>
         (\<exists>evs. out s' = out s @ evs \<and> saves c evs = [] \<and> env_steps evs = [] \<and>
                remembered evs = [] \<and> trainings evs = 0 \<and>
                (summary_writer s = None \<longrightarrow> summaries evs = []))"
proof (cases "update_stats (s\<lparr>episode := episode s + 1\<rparr>) q r t")
  case (Inl a)
  then have "update_stats (s\<lparr>episode := episode s + 1\<rparr>) q r t = Inl (e, s')"
    using assms by (simp add: finish_rollout_def)
  from update_stats_Inl(1,3) [OF this] show ?thesis by simp
next
  case us: (Inr s1)
  note s1 = update_stats_Inr(2) [OF us, simplified]
  show ?thesis
  proof (cases "if summary s1 \<noteq> None then update_summaries s1 r q else Inr s1")
    case (Inl a)
    then have "update_summaries s1 r q = Inl (e, s')"
      using assms us by (simp add: finish_rollout_def split: if_splits)
    from update_summaries_Inl(1,3) [OF this] show ?thesis by (simp add: s1)
  next
    case sm: (Inr s2)
    have s2: "best_score s2 = best_score s" "success s2 = success s" "eval s2 = eval s"
      "mean_er s2 \<noteq> None"
      "\<exists>evs. out s2 = out s @ evs \<and> saves c evs = [] \<and> env_steps evs = [] \<and>
                remembered evs = [] \<and> trainings evs = 0 \<and>
                (summary_writer s = None \<longrightarrow> summaries evs = [])"
    proof -
      show "best_score s2 = best_score s" "success s2 = success s" "eval s2 = eval s"
        "mean_er s2 \<noteq> None"
        using sm update_summaries_Inr(3) [of s1 r q s2] by (auto simp: s1 split: if_splits)
      show "\<exists>evs. out s2 = out s @ evs \<and> saves c evs = [] \<and> env_steps evs = [] \<and>
                remembered evs = [] \<and> trainings evs = 0 \<and>
                (summary_writer s = None \<longrightarrow> summaries evs = [])"
      proof (cases "summary s1 \<noteq> None")
        case True
        then have u: "update_summaries s1 r q = Inr s2" using sm by simp
        show ?thesis
          using update_summaries_Inr(1) [OF u]
          by (subst update_summaries_Inr(3) [OF u]) (simp add: s1)
      next
        case False
        then have "s2 = s1" using sm by simp
        then show ?thesis by (simp add: s1)
      qed
    qed
    obtain s3 where lg: "(if \<not> eval s2 then log_rg s2 q r t else Inr s2) = Inr s3"
      and s3: "s3 = (if eval s2 then s2 else emit [PrintTrain (name s2) (episode s2) r q t] s2)"
      by (simp add: log_rg_train)
    have s3': "best_score s3 = best_score s" "success s3 = success s" "mean_er s3 \<noteq> None"
      "\<exists>evs. out s3 = out s @ evs \<and> saves c evs = [] \<and> env_steps evs = [] \<and>
                remembered evs = [] \<and> trainings evs = 0 \<and>
                (summary_writer s = None \<longrightarrow> summaries evs = [])"
      using s2 by (auto simp: s3 emit_def)
    show ?thesis
    proof (cases info)
      case None
      then have "e = UnboundLocalError" "s' = s3"
        using assms us sm lg by (simp_all add: finish_rollout_def)
      then show ?thesis using s3' by simp
    next
      case (Some i)
      then have "create_checkpoint (report_success s3 i) = Inl (e, s')"
        using assms us sm lg by (simp add: finish_rollout_def)
      from create_checkpoint_Inl(4) [OF this] s3'(3) show ?thesis
        by (simp add: report_success_eq)
    qed
  qed
qed

lemma finish_rollout_no_writer:
  assumes "summary s \<noteq> None" and "summary_writer s = None" and "episode s + 1 \<noteq> 0"
  shows "\<exists>s'. finish_rollout s t q r info = Inl (AttributeError, s') \<and> out s' = out s \<and>
           success s' = success s"
proof -
  obtain s1 where us: "update_stats (s\<lparr>episode := episode s + 1\<rparr>) q r t = Inr s1"
    using assms(3) by (simp add: update_stats_def Let_def)
  note s1 = update_stats_Inr(2) [OF us, simplified]
  have w: "summary_writer s1 = None" "summary s1 \<noteq> None" using assms by (simp_all add: s1)
  obtain s' where sm: "update_summaries s1 r q = Inl (AttributeError, s')"
    using update_summaries_None [OF w(1)] by blast
  have "finish_rollout s t q r info = Inl (AttributeError, s')"
    using us sm w by (simp add: finish_rollout_def)
  moreover have "out s' = out s \<and> success s' = success s"
    by (subst update_summaries_Inl(3) [OF sm], subst update_summaries_Inl(3) [OF sm]) (simp add: s1)
  ultimately show ?thesis by blast
qed

lemma generate_rollout_unfold:
  "generate_rollout E A s =
     (case rollout_loop E A (touch s (snd (env_reset E (env s))) (agent s) [EnvReset])
             (fst (env_reset E (env s))) 0 False 0 0 None of
        Inl e \<Rightarrow> Inl e
      | Inr (s1, t, q, r, info) \<Rightarrow> finish_rollout s1 t q r info)"
  by (simp add: generate_rollout_def touch_def emit_def split: prod.split)

lemma new_events_prefix: "new_events xs (xs @ ys @ zs) = ys @ zs"
  by (simp add: new_events_def)

lemma rollout_loop_from_reset:
  fixes E A s
  defines "s0 \<equiv> touch s (snd (env_reset E (env s))) (agent s) [EnvReset]"
  defines "l \<equiv> rollout_loop E A s0 (fst (env_reset E (env s))) 0 False 0 0 None"
  defines "new \<equiv> new_events (out s) (out (ended l))"
  shows "framed s (ended l)"
    and "length (remembered new) = length (env_steps new)"
    and "int (length (env_steps new)) \<le> max 0 (max_episode_steps E)"
    and "list_all well_formed (remembered new)"
    and "saves c new = []"
    and "summaries new = []"
    and "l \<noteq> Inl (AssertionError, s2)"
    and "l = Inr (s1, t1, q1, r1, info1) \<Longrightarrow>
           t1 = int (length (env_steps new)) \<and>
           trainings new = (if eval s then 0 else nat (the (train_cycles_per_ts s))) * length (env_steps new)"
proof -
  note lf = rollout_loop_facts [of s0 E A "fst (env_reset E (env s))" 0 False 0 0 None c, folded l_def]
  have f0: "framed s s0" by (simp add: s0_def)
  have f1: "framed s0 (ended l)" using lf by blast
  note tr = framed_trans [OF f0 f1]
  have n0: "new_events (out s) (out s0) = [EnvReset]" by (simp add: s0_def)
  have new: "new = [EnvReset] @ new_events (out s0) (out (ended l))"
    unfolding new_def tr(2) n0 ..
  show "framed s (ended l)" by (rule tr(1))
  show "length (remembered new) = length (env_steps new)"
    using lf by (simp add: new)
  show "int (length (env_steps new)) \<le> max 0 (max_episode_steps E)"
    using lf by (simp add: new)
  show "list_all well_formed (remembered new)"
    using lf by (simp add: new)
  show "saves c new = []"
    using lf by (simp add: new)
  show "summaries new = []"
    using lf by (simp add: new)
  show "l \<noteq> Inl (AssertionError, s2)"
    using lf by blast
  show "l = Inr (s1, t1, q1, r1, info1) \<Longrightarrow>
           t1 = int (length (env_steps new)) \<and>
           trainings new = (if eval s then 0 else nat (the (train_cycles_per_ts s))) * length (env_steps new)"
  proof -
    assume a: "l = Inr (s1, t1, q1, r1, info1)"
    then have e: "ended l = s1" by simp
    from lf a have "t1 = 0 + int (length (env_steps (new_events (out s0) (out s1)))) \<and>
      trainings (new_events (out s0) (out s1)) =
        (if eval s0 then 0 else nat (the (train_cycles_per_ts s0))) * length (env_steps (new_events (out s0) (out s1)))"
      by blast
    then show ?thesis
      unfolding new e by (simp add: s0_def)
  qed
qed


lemma generate_rollout_Inr:
  assumes "generate_rollout E A s = Inr s'"
  obtains s1 t q r i where
    "rollout_loop E A (touch s (snd (env_reset E (env s))) (agent s) [EnvReset])
        (fst (env_reset E (env s))) 0 False 0 0 None = Inr (s1, t, q, r, Some i)"
    "finish_rollout s1 t q r (Some i) = Inr s'"
proof -
  let ?l = "rollout_loop E A (touch s (snd (env_reset E (env s))) (agent s) [EnvReset])
        (fst (env_reset E (env s))) 0 False 0 0 None"
  show ?thesis
  proof (cases ?l)
    case (Inl e)
    then show ?thesis using assms by (simp add: generate_rollout_unfold)
  next
    case (Inr b)
    obtain s1 t q r info where b: "b = (s1, t, q, r, info)" by (cases b) auto
    have f: "finish_rollout s1 t q r info = Inr s'"
      using assms Inr b by (simp add: generate_rollout_unfold)
    from finish_rollout_Inr(1) [OF f] obtain i where "info = Some i" by blast
    then show ?thesis using that Inr b f by simp
  qed
qed

lemma generate_rollout_fields:
  assumes "generate_rollout E A s = Inr s'"
  shows "episode s' = episode s + 1"
    and "eval s' = eval s" and "n_episodes s' = n_episodes s"
    and "periodic_ckpt s' = periodic_ckpt s" and "save_best s' = save_best s"
    and "mean_er s' = Some (r_total s' / real_of_int (episode s'))"
    and "mean_eq s' = Some (q_total s' / real_of_int (episode s'))"
    and "episode s' \<noteq> 0"
    and "best_score s' =
           (if eval s \<and> save_best s \<and> best_score s < r_total s' / real_of_int (episode s')
            then r_total s' / real_of_int (episode s') else best_score s)"
    and "out s' = out s @ new_events (out s) (out s')"
    and "saves ''B'' (new_events (out s) (out s')) =
           (if eval s \<and> save_best s \<and> best_score s < r_total s' / real_of_int (episode s')
            then [episode s'] else [])"
    and "saves ''P'' (new_events (out s) (out s')) =
           (if periodic_ckpt s \<noteq> 0 \<and> episode s' mod periodic_ckpt s = 0
            then [episode s'] else [])"
    and "summary s \<noteq> None \<Longrightarrow> summary_writer s \<noteq> None"
    and "length (summaries (new_events (out s) (out s'))) = (if summary s \<noteq> None then 1 else 0)"
    and "length (remembered (new_events (out s) (out s'))) = length (env_steps (new_events (out s) (out s')))"
    and "list_all well_formed (remembered (new_events (out s) (out s')))"
    and "int (length (env_steps (new_events (out s) (out s')))) \<le> max 0 (max_episode_steps E)"
    and "trainings (new_events (out s) (out s')) =
           (if eval s then 0 else nat (the (train_cycles_per_ts s))) *
             length (env_steps (new_events (out s) (out s')))"
proof -
  obtain s1 t q r i where
    l: "rollout_loop E A (touch s (snd (env_reset E (env s))) (agent s) [EnvReset])
        (fst (env_reset E (env s))) 0 False 0 0 None = Inr (s1, t, q, r, Some i)"
    and f: "finish_rollout s1 t q r (Some i) = Inr s'"
    using generate_rollout_Inr [OF assms] by blast
  note lr = rollout_loop_from_reset(1-6) [where s = s and E = E and A = A, unfolded l, simplified]
  note lr8 = rollout_loop_from_reset(8) [OF l, unfolded l, simplified]
  note ff = framed_fields(1-19) [OF lr(1)]
  note fo = framed_fields(20) [OF lr(1)]
  have s': "s' = finished s1 t q r i"
    by (rule finish_rollout_Inr_Some [OF f])
  note fd = finished_def
  note ep = finish_rollout_Inr(2) [OF f]
  show "episode s' = episode s + 1" by (simp add: s' fd ff)
  show "eval s' = eval s" by (simp add: s' fd ff)
  show "n_episodes s' = n_episodes s" by (simp add: s' fd ff)
  show "periodic_ckpt s' = periodic_ckpt s" by (simp add: s' fd ff)
  show "save_best s' = save_best s" by (simp add: s' fd ff)
  show "mean_er s' = Some (r_total s' / real_of_int (episode s'))" by (simp add: s' fd ff)
  show "mean_eq s' = Some (q_total s' / real_of_int (episode s'))" by (simp add: s' fd ff)
  show "episode s' \<noteq> 0" using ep by (simp add: s' fd ff)
  show "best_score s' =
           (if eval s \<and> save_best s \<and> best_score s < r_total s' / real_of_int (episode s')
            then r_total s' / real_of_int (episode s') else best_score s)"
    by (simp add: s' fd ff)
  define F where "F =
               (if summary s1 \<noteq> None
                then [AddSummary [(name s1 @ ''/episodic_r'', r), (name s1 @ ''/episodic_q'', q)]
                        (if eval s1 then the (eval_counter s1) + 1 else episode s1 + 1), Flush]
                else []) @
               (if \<not> eval s1 then [PrintTrain (name s1) (episode s1 + 1) r q t] else []) @
               (if is_success i then [LogOut ''Reached goal.. hooray?''] else []) @
               (if periodic_ckpt s1 \<noteq> 0 \<and> (episode s1 + 1) mod periodic_ckpt s1 = 0
                then [InfoOut ''Creating periodic checkpoint'', SaverSave ''P'' (episode s1 + 1)]
                else []) @
               (if eval s1 \<and> save_best s1 \<and>
                   best_score s1 < (r_total s1 + r) / real_of_int (episode s1 + 1)
                then [InfoNewBest ((r_total s1 + r) / real_of_int (episode s1 + 1)),
                      SaverSave ''B'' (episode s1 + 1)]
                else [])"
  have o1: "out s' = out s1 @ F"
    unfolding s' fd F_def by simp
  have n1': "new_events (out s1) (out s') = F"
    unfolding o1 by simp
  have o: "out s' = out s @ new_events (out s) (out s1) @ F"
    unfolding o1 by (subst fo) simp
  have n: "new_events (out s) (out s') = new_events (out s) (out s1) @ F"
    unfolding o by (simp add: new_events_prefix)
  show "out s' = out s @ new_events (out s) (out s')"
    unfolding n by (rule o)
  have M: "r_total s' = r_total s + r"
    by (simp add: s' fd ff)
  define B where "B \<longleftrightarrow> eval s \<and> save_best s \<and> best_score s < (r_total s + r) / real_of_int (episode s + 1)"
  define P where "P \<longleftrightarrow> periodic_ckpt s \<noteq> 0 \<and> (episode s + 1) mod periodic_ckpt s = 0"
  have F: "F =
               (if summary s \<noteq> None
                then [AddSummary [(name s @ ''/episodic_r'', r), (name s @ ''/episodic_q'', q)]
                        (if eval s then the (eval_counter s) + 1 else episode s + 1), Flush]
                else []) @
               (if \<not> eval s then [PrintTrain (name s) (episode s + 1) r q t] else []) @
               (if is_success i then [LogOut ''Reached goal.. hooray?''] else []) @
               (if P then [InfoOut ''Creating periodic checkpoint'', SaverSave ''P'' (episode s + 1)]
                else []) @
               (if B then [InfoNewBest ((r_total s + r) / real_of_int (episode s + 1)),
                      SaverSave ''B'' (episode s + 1)]
                else [])"
    unfolding F_def B_def P_def ff ..
  have e': "episode s' = episode s + 1" by (simp add: s' fd ff)
  have "saves ''B'' (new_events (out s) (out s')) = (if B then [episode s + 1] else [])"
    unfolding n by (simp add: lr(5) F)
  then show "saves ''B'' (new_events (out s) (out s')) =
           (if eval s \<and> save_best s \<and> best_score s < r_total s' / real_of_int (episode s')
            then [episode s'] else [])"
    by (simp only: M e' B_def)
  have "saves ''P'' (new_events (out s) (out s')) = (if P then [episode s + 1] else [])"
    unfolding n by (simp add: lr(5) F)
  then show "saves ''P'' (new_events (out s) (out s')) =
           (if periodic_ckpt s \<noteq> 0 \<and> episode s' mod periodic_ckpt s = 0
            then [episode s'] else [])"
    by (simp only: e' P_def)
  show "summary s \<noteq> None \<Longrightarrow> summary_writer s \<noteq> None"
    using finish_rollout_Inr(3) [OF f] by (simp add: ff)
  show "length (summaries (new_events (out s) (out s'))) = (if summary s \<noteq> None then 1 else 0)"
    unfolding n by (simp add: lr(6) F)
  show "length (remembered (new_events (out s) (out s'))) = length (env_steps (new_events (out s) (out s')))"
    unfolding n using lr(2) by (simp add: F)
  show "list_all well_formed (remembered (new_events (out s) (out s')))"
    unfolding n using lr(4) by (simp add: F)
  show "int (length (env_steps (new_events (out s) (out s')))) \<le> max 0 (max_episode_steps E)"
    unfolding n using lr(3) by (simp add: F)
  show "trainings (new_events (out s) (out s')) =
           (if eval s then 0 else nat (the (train_cycles_per_ts s))) *
             length (env_steps (new_events (out s) (out s')))"
    unfolding n using lr8 by (simp add: F)
qed

lemma py_range_2: "py_range 2 = [0, 1]"
  by (simp add: py_range_def upto.simps)

lemmas eval_defs = generate_rollout_def rollout_loop.simps rollout_body_def step_and_remember_def
  render_if_required_def train_if_required_def finish_rollout_def report_success_def
  init_def test_generator_def reset_def emit_def script_env_def stub_agent_def test_config_def obs0_def
  update_stats_def update_summaries_def log_rg_def create_checkpoint_def transition_of_def
  truthy_str_def py_range_2 Let_def

lemma init_fields:
  "name (init e a c ev w) = (if ev then ''*EVAL'' else ''TRAIN'') @ ''_ROLLOUT''"
  "env (init e a c ev w) = e"
  "agent (init e a c ev w) = a"
  "eval (init e a c ev w) = ev"
  "best_score (init e a c ev w) = 0"
  "summary_writer (init e a c ev w) = w"
  "summary (init e a c ev w) = Some []"
  "eval_counter (init e a c ev w) = (if ev then Some 0 else None)"
  "render (init e a c ev w) = cfg_render c"
  "train_cycles_per_ts (init e a c ev w) = cfg_train_cycles_per_ts c"
  "periodic_ckpt (init e a c ev w) = (case cfg_periodic_ckpt c of None \<Rightarrow> 0 | Some p \<Rightarrow> p)"
  "save_best (init e a c ev w) = (case cfg_save_best c of None \<Rightarrow> False | Some b \<Rightarrow> b)"
  "n_episodes (init e a c ev w) = cfg_n_episodes c"
  "step_sleep (init e a c ev w) = cfg_step_sleep c"
  "q_total (init e a c ev w) = 0"
  "r_total (init e a c ev w) = 0"
  "t_steps (init e a c ev w) = 0"
  "episode (init e a c ev w) = 0"
  "success (init e a c ev w) = 0"
  "mean_eq (init e a c ev w) = None"
  "mean_er (init e a c ev w) = None"
  "out (init e a c ev w) = [InfoOut (''Initialized '' @ (if ev then ''*EVAL'' else ''TRAIN'') @ ''_ROLLOUT'')]"
  by (simp_all add: init_def reset_def emit_def Let_def)

lemma create_checkpoint_final:
  "out (final (create_checkpoint s)) = out s @
     (if periodic_ckpt s \<noteq> 0 \<and> episode s mod periodic_ckpt s = 0
      then [InfoOut ''Creating periodic checkpoint'', SaverSave ''P'' (episode s)] else []) @
     (if eval s \<and> save_best s \<and> (\<exists>m. mean_er s = Some m \<and> best_score s < m)
      then [InfoNewBest (the (mean_er s)), SaverSave ''B'' (episode s)] else [])"
  "best_score (final (create_checkpoint s)) =
     (if eval s \<and> save_best s \<and> (\<exists>m. mean_er s = Some m \<and> best_score s < m)
      then the (mean_er s) else best_score s)"
  "mean_er (final (create_checkpoint s)) = mean_er s"
proof -
  show "out (final (create_checkpoint s)) = out s @
     (if periodic_ckpt s \<noteq> 0 \<and> episode s mod periodic_ckpt s = 0
      then [InfoOut ''Creating periodic checkpoint'', SaverSave ''P'' (episode s)] else []) @
     (if eval s \<and> save_best s \<and> (\<exists>m. mean_er s = Some m \<and> best_score s < m)
      then [InfoNewBest (the (mean_er s)), SaverSave ''B'' (episode s)] else [])"
  proof (cases "create_checkpoint s")
    case (Inl a)
    obtain e s' where a: "a = (e, s')" by (cases a)
    from create_checkpoint_Inl [OF Inl [unfolded a]] show ?thesis
      by (simp add: Inl a)
  next
    case (Inr s')
    from create_checkpoint_Inr [OF Inr] show ?thesis
      by (cases "mean_er s") (auto simp add: Inr)
  qed
  show "best_score (final (create_checkpoint s)) =
     (if eval s \<and> save_best s \<and> (\<exists>m. mean_er s = Some m \<and> best_score s < m)
      then the (mean_er s) else best_score s)"
  proof (cases "create_checkpoint s")
    case (Inl a)
    obtain e s' where a: "a = (e, s')" by (cases a)
    from create_checkpoint_Inl [OF Inl [unfolded a]] show ?thesis
      by (simp add: Inl a)
  next
    case (Inr s')
    from create_checkpoint_Inr [OF Inr] show ?thesis
      by (cases "mean_er s") (auto simp add: Inr)
  qed
  show "mean_er (final (create_checkpoint s)) = mean_er s"
  proof (cases "create_checkpoint s")
    case (Inl a)
    obtain e s' where a: "a = (e, s')" by (cases a)
    from create_checkpoint_Inl [OF Inl [unfolded a]] show ?thesis
      by (simp add: Inl a)
  next
    case (Inr s')
    from create_checkpoint_Inr [OF Inr] show ?thesis
      by (simp add: Inr)
  qed
qed

lemma mod_zero_dvd: "(p::int) \<noteq> 0 \<and> n mod p = 0 \<longleftrightarrow> p \<noteq> 0 \<and> p dvd n"
  by auto

section \<open>Lemmas on train.py\<close>

lemma effects_t_emit [simp]: "effects (t_emit evs st) = effects st @ evs"
  by (simp add: t_emit_def)

lemma t_emit_fields [simp]:
  "g_env (t_emit evs st) = g_env st"
  "ddpg_agent (t_emit evs st) = ddpg_agent st"
  "s_summary (t_emit evs st) = s_summary st"
  "current_best_eval_score (t_emit evs st) = current_best_eval_score st"
  "m_eval_score (t_emit evs st) = m_eval_score st"
  "loop_i (t_emit evs st) = loop_i st"
  "loop_j (t_emit evs st) = loop_j st"
  by (simp_all add: t_emit_def)

lemma py_range_5: "py_range 5 = [0, 1, 2, 3, 4]"
  by (simp add: py_range_def upto.simps)

text \<open>One pass of the training loop of \<open>train.py\<close>.\<close>

lemma train_step_facts:
  fixes G A c ep i st loc
  defines "st' \<equiv> ended (train_step G A c ep i st loc)"
  shows "\<exists>evs. effects st' = effects st @ evs \<and> length (env_steps evs) \<le> 1 \<and>
           remembered evs = [] \<and> saves k evs = [] \<and>
           (\<forall>st1 loc1 brk. train_step G A c ep i st loc = Inr (st1, loc1, brk) \<longrightarrow>
              length (env_steps evs) = 1 \<and> trainings evs = 5 \<and>
              (\<exists>tr. episode_batch loc1 = episode_batch loc @ [tr] \<and> well_formed tr))"
    and "current_best_eval_score st' = current_best_eval_score st"
    and "m_eval_score st' = m_eval_score st"
proof -
  obtain action u q ag1 where as:
    "agent_step A (ddpg_agent st) (obs (cur_obs loc) @ goal (cur_obs loc)) (Some (is_u_discrete G)) None
       = ((action, u, q), ag1)"
    by (cases "agent_step A (ddpg_agent st) (obs (cur_obs loc) @ goal (cur_obs loc)) (Some (is_u_discrete G)) None") auto
  show "\<exists>evs. effects st' = effects st @ evs \<and> length (env_steps evs) \<le> 1 \<and>
           remembered evs = [] \<and> saves k evs = [] \<and>
           (\<forall>st1 loc1 brk. train_step G A c ep i st loc = Inr (st1, loc1, brk) \<longrightarrow>
              length (env_steps evs) = 1 \<and> trainings evs = 5 \<and>
              (\<exists>tr. episode_batch loc1 = episode_batch loc @ [tr] \<and> well_formed tr))"
  proof (cases "scale_action action")
    case (Inl err)
    then show ?thesis
      unfolding st'_def by (simp add: train_step_def Let_def as)
  next
    case (Inr act)
    obtain new_obs r d info e1 where gs:
      "g_step G (g_env st) act = ((new_obs, r, d, info), e1)"
      by (cases "g_step G (g_env st) act") auto
    show ?thesis
      unfolding st'_def
      by (cases d; cases "cfg_render c = Some True")
         (simp_all add: train_step_def Let_def as Inr gs train_cycles_eq py_range_5 well_formed_def)
  qed
  show "current_best_eval_score st' = current_best_eval_score st"
  proof (cases "scale_action action")
    case (Inl err)
    then show ?thesis
      unfolding st'_def by (simp add: train_step_def Let_def as)
  next
    case (Inr act)
    obtain new_obs r d info e1 where gs:
      "g_step G (g_env st) act = ((new_obs, r, d, info), e1)"
      by (cases "g_step G (g_env st) act") auto
    show ?thesis
      unfolding st'_def
      by (cases d; cases "cfg_render c = Some True")
         (simp_all add: train_step_def Let_def as Inr gs train_cycles_eq py_range_5)
  qed
  show "m_eval_score st' = m_eval_score st"
  proof (cases "scale_action action")
    case (Inl err)
    then show ?thesis
      unfolding st'_def by (simp add: train_step_def Let_def as)
  next
    case (Inr act)
    obtain new_obs r d info e1 where gs:
      "g_step G (g_env st) act = ((new_obs, r, d, info), e1)"
      by (cases "g_step G (g_env st) act") auto
    show ?thesis
      unfolding st'_def
      by (cases d; cases "cfg_render c = Some True")
         (simp_all add: train_step_def Let_def as Inr gs train_cycles_eq py_range_5)
  qed
qed


lemma train_steps_facts:
  "\<exists>evs. effects (ended (train_steps G A c ep js st loc)) = effects st @ evs \<and>
          length (env_steps evs) \<le> length js \<and> remembered evs = [] \<and> saves k evs = [] \<and>
          (\<forall>st1 loc1. train_steps G A c ep js st loc = Inr (st1, loc1) \<longrightarrow>
             trainings evs = 5 * length (env_steps evs) \<and>
             (\<exists>trs. episode_batch loc1 = episode_batch loc @ trs \<and>
                    length trs = length (env_steps evs) \<and> list_all well_formed trs))"
  "current_best_eval_score (ended (train_steps G A c ep js st loc)) = current_best_eval_score st"
  "m_eval_score (ended (train_steps G A c ep js st loc)) = m_eval_score st"
proof -
  have "(\<exists>evs. effects (ended (train_steps G A c ep js st loc)) = effects st @ evs \<and>
          length (env_steps evs) \<le> length js \<and> remembered evs = [] \<and> saves k evs = [] \<and>
          (\<forall>st1 loc1. train_steps G A c ep js st loc = Inr (st1, loc1) \<longrightarrow>
             trainings evs = 5 * length (env_steps evs) \<and>
             (\<exists>trs. episode_batch loc1 = episode_batch loc @ trs \<and>
                    length trs = length (env_steps evs) \<and> list_all well_formed trs))) \<and>
    current_best_eval_score (ended (train_steps G A c ep js st loc)) = current_best_eval_score st \<and>
    m_eval_score (ended (train_steps G A c ep js st loc)) = m_eval_score st"
  proof (induction js arbitrary: st loc)
    case Nil
    show ?case by simp
  next
    case (Cons j js)
    let ?st = "st\<lparr>loop_i := Some j\<rparr>"
    note sf = train_step_facts [where G = G and A = A and c = c and ep = ep and i = j and st = "?st" and loc = loc]
    obtain evs1 where e1: "effects (ended (train_step G A c ep j ?st loc)) = effects st @ evs1"
      and b1: "length (env_steps evs1) \<le> 1" "remembered evs1 = []" "saves k evs1 = []"
      and r1: "\<And>st1 loc1 brk. train_step G A c ep j ?st loc = Inr (st1, loc1, brk) \<Longrightarrow>
              length (env_steps evs1) = 1 \<and> trainings evs1 = 5 \<and>
              (\<exists>tr. episode_batch loc1 = episode_batch loc @ [tr] \<and> well_formed tr)"
      using sf(1) [of k] by auto
    show ?case
    proof (cases "train_step G A c ep j ?st loc")
      case (Inl e)
      then have "train_steps G A c ep (j # js) st loc = Inl e" by simp
      then show ?thesis using Inl e1 b1 sf(2,3) by simp
    next
      case (Inr b)
      obtain st1 loc1 brk where b: "b = (st1, loc1, brk)" by (cases b) auto
      note r = r1 [OF Inr [unfolded b]]
      have st1: "effects st1 = effects st @ evs1"
        "current_best_eval_score st1 = current_best_eval_score st"
        "m_eval_score st1 = m_eval_score st"
        using e1 sf(2,3) Inr b by simp_all
      show ?thesis
      proof (cases brk)
        case True
        then have "train_steps G A c ep (j # js) st loc = Inr (st1, loc1)"
          using Inr b by simp
        then show ?thesis using st1 b1 r by auto
      next
        case False
        then have ts: "train_steps G A c ep (j # js) st loc = train_steps G A c ep js st1 loc1"
          using Inr b by simp
        from Cons.IH [of st1 loc1] obtain evs2 where
          e2: "effects (ended (train_steps G A c ep js st1 loc1)) = effects st1 @ evs2"
          and b2: "length (env_steps evs2) \<le> length js" "remembered evs2 = []" "saves k evs2 = []"
          and r2: "\<And>st2 loc2. train_steps G A c ep js st1 loc1 = Inr (st2, loc2) \<Longrightarrow>
             trainings evs2 = 5 * length (env_steps evs2) \<and>
             (\<exists>trs. episode_batch loc2 = episode_batch loc1 @ trs \<and>
                    length trs = length (env_steps evs2) \<and> list_all well_formed trs)"
          and c2: "current_best_eval_score (ended (train_steps G A c ep js st1 loc1)) = current_best_eval_score st1"
            "m_eval_score (ended (train_steps G A c ep js st1 loc1)) = m_eval_score st1"
          by auto
        have "effects (ended (train_steps G A c ep (j # js) st loc)) = effects st @ (evs1 @ evs2) \<and>
          length (env_steps (evs1 @ evs2)) \<le> length (j # js) \<and> remembered (evs1 @ evs2) = [] \<and>
          saves k (evs1 @ evs2) = [] \<and>
          (\<forall>st2 loc2. train_steps G A c ep (j # js) st loc = Inr (st2, loc2) \<longrightarrow>
             trainings (evs1 @ evs2) = 5 * length (env_steps (evs1 @ evs2)) \<and>
             (\<exists>trs. episode_batch loc2 = episode_batch loc @ trs \<and>
                    length trs = length (env_steps (evs1 @ evs2)) \<and> list_all well_formed trs))"
        proof (intro conjI allI impI)
          show "effects (ended (train_steps G A c ep (j # js) st loc)) = effects st @ (evs1 @ evs2)"
            unfolding ts e2 st1 by simp
          show "length (env_steps (evs1 @ evs2)) \<le> length (j # js)"
            using b1 b2 by simp
          show "remembered (evs1 @ evs2) = []" using b1 b2 by simp
          show "saves k (evs1 @ evs2) = []" using b1 b2 by simp
        next
          fix st2 loc2
          assume a: "train_steps G A c ep (j # js) st loc = Inr (st2, loc2)"
          then have a': "train_steps G A c ep js st1 loc1 = Inr (st2, loc2)" using ts by simp
          note r2' = r2 [OF a']
          show "trainings (evs1 @ evs2) = 5 * length (env_steps (evs1 @ evs2))"
            using r r2' by simp
          from r obtain tr where tr: "episode_batch loc1 = episode_batch loc @ [tr]" "well_formed tr"
            by blast
          from r2' obtain trs where trs: "episode_batch loc2 = episode_batch loc1 @ trs"
            "length trs = length (env_steps evs2)" "list_all well_formed trs" by blast
          have "episode_batch loc2 = episode_batch loc @ (tr # trs) \<and>
                    length (tr # trs) = length (env_steps (evs1 @ evs2)) \<and> list_all well_formed (tr # trs)"
            using tr trs r by simp
          then show "\<exists>trs. episode_batch loc2 = episode_batch loc @ trs \<and>
                    length trs = length (env_steps (evs1 @ evs2)) \<and> list_all well_formed trs"
            by blast
        qed
        moreover have "current_best_eval_score (ended (train_steps G A c ep (j # js) st loc)) = current_best_eval_score st"
          "m_eval_score (ended (train_steps G A c ep (j # js) st loc)) = m_eval_score st"
          unfolding ts using c2 st1 by simp_all
        ultimately show ?thesis by blast
      qed
    qed
  qed
  then show "\<exists>evs. effects (ended (train_steps G A c ep js st loc)) = effects st @ evs \<and>
          length (env_steps evs) \<le> length js \<and> remembered evs = [] \<and> saves k evs = [] \<and>
          (\<forall>st1 loc1. train_steps G A c ep js st loc = Inr (st1, loc1) \<longrightarrow>
             trainings evs = 5 * length (env_steps evs) \<and>
             (\<exists>trs. episode_batch loc1 = episode_batch loc @ trs \<and>
                    length trs = length (env_steps evs) \<and> list_all well_formed trs))"
  "current_best_eval_score (ended (train_steps G A c ep js st loc)) = current_best_eval_score st"
  "m_eval_score (ended (train_steps G A c ep js st loc)) = m_eval_score st"
    by blast+
qed


lemma remember_all_facts:
  "effects (remember_all A trs st) = effects st @ map Remember trs"
  "current_best_eval_score (remember_all A trs st) = current_best_eval_score st"
  "m_eval_score (remember_all A trs st) = m_eval_score st"
  "loop_i (remember_all A trs st) = loop_i st"
  by (induction trs arbitrary: st) simp_all

lemma remembered_map_Remember [simp]: "remembered (map Remember trs) = trs"
  by (induction trs) simp_all

lemma saves_map_Remember [simp]: "saves k (map Remember trs) = []"
  by (induction trs) simp_all

lemma env_steps_map_Remember [simp]: "env_steps (map Remember trs) = []"
  by (induction trs) simp_all

lemma trainings_map_Remember [simp]: "trainings (map Remember trs) = 0"
  by (induction trs) simp_all

lemma eval_steps_facts:
  "\<exists>evs. effects (fst (eval_steps G A js st x sc q)) = effects st @ evs \<and>
          length (env_steps evs) \<le> length js \<and> remembered evs = [] \<and> saves k evs = [] \<and>
          trainings evs = 0"
  "current_best_eval_score (fst (eval_steps G A js st x sc q)) = current_best_eval_score st"
  "m_eval_score (fst (eval_steps G A js st x sc q)) = m_eval_score st"
proof -
  have "(\<exists>evs. effects (fst (eval_steps G A js st x sc q)) = effects st @ evs \<and>
          length (env_steps evs) \<le> length js \<and> remembered evs = [] \<and> saves k evs = [] \<and>
          trainings evs = 0) \<and>
    current_best_eval_score (fst (eval_steps G A js st x sc q)) = current_best_eval_score st \<and>
    m_eval_score (fst (eval_steps G A js st x sc q)) = m_eval_score st"
  proof (induction js arbitrary: st x sc q)
    case Nil
    show ?case by simp
  next
    case (Cons j js)
    obtain u u2 qq ag1 where as:
      "agent_step A (ddpg_agent st) (obs x @ goal x) (Some (is_u_discrete G)) (Some False) = ((u, u2, qq), ag1)"
      by (cases "agent_step A (ddpg_agent st) (obs x @ goal x) (Some (is_u_discrete G)) (Some False)") auto
    obtain x2 r d info e1 where gs: "g_step G (g_env st) u = ((x2, r, d, info), e1)"
      by (cases "g_step G (g_env st) u") auto
    let ?st1 = "t_emit [AgentStep (obs x @ goal x) (Some (is_u_discrete G)) (Some False), EnvStep u]
                  (st\<lparr>ddpg_agent := ag1, g_env := e1, loop_j := Some j\<rparr>)"
    show ?case
    proof (cases d)
      case True
      then have "eval_steps G A (j # js) st x sc q = (?st1, sc + r, q + qq)"
        by (simp add: as gs Let_def)
      then show ?thesis by simp
    next
      case False
      then have es: "eval_steps G A (j # js) st x sc q = eval_steps G A js ?st1 x2 (sc + r) (q + qq)"
        by (simp add: as gs Let_def)
      from Cons.IH [of ?st1 x2 "sc + r" "q + qq"] obtain evs where
        e: "effects (fst (eval_steps G A js ?st1 x2 (sc + r) (q + qq))) = effects ?st1 @ evs"
        and b: "length (env_steps evs) \<le> length js" "remembered evs = []" "saves k evs = []"
          "trainings evs = 0"
        and c: "current_best_eval_score (fst (eval_steps G A js ?st1 x2 (sc + r) (q + qq))) =
                current_best_eval_score ?st1"
          "m_eval_score (fst (eval_steps G A js ?st1 x2 (sc + r) (q + qq))) = m_eval_score ?st1"
        by auto
      have "effects (fst (eval_steps G A (j # js) st x sc q)) =
              effects st @ ([AgentStep (obs x @ goal x) (Some (is_u_discrete G)) (Some False), EnvStep u] @ evs)"
        unfolding es e by simp
      moreover have "length (env_steps ([AgentStep (obs x @ goal x) (Some (is_u_discrete G)) (Some False), EnvStep u] @ evs)) \<le> length (j # js)"
        "remembered ([AgentStep (obs x @ goal x) (Some (is_u_discrete G)) (Some False), EnvStep u] @ evs) = []"
        "saves k ([AgentStep (obs x @ goal x) (Some (is_u_discrete G)) (Some False), EnvStep u] @ evs) = []"
        "trainings ([AgentStep (obs x @ goal x) (Some (is_u_discrete G)) (Some False), EnvStep u] @ evs) = 0"
        using b by simp_all
      moreover have "current_best_eval_score (fst (eval_steps G A (j # js) st x sc q)) = current_best_eval_score st"
        "m_eval_score (fst (eval_steps G A (j # js) st x sc q)) = m_eval_score st"
        unfolding es c by simp_all
      ultimately show ?thesis by blast
    qed
  qed
  then show "\<exists>evs. effects (fst (eval_steps G A js st x sc q)) = effects st @ evs \<and>
          length (env_steps evs) \<le> length js \<and> remembered evs = [] \<and> saves k evs = [] \<and>
          trainings evs = 0"
  "current_best_eval_score (fst (eval_steps G A js st x sc q)) = current_best_eval_score st"
  "m_eval_score (fst (eval_steps G A js st x sc q)) = m_eval_score st"
    by blast+
qed


lemma eval_runs_facts:
  "\<exists>evs. effects (ended (eval_runs G A rs st m q)) = effects st @ evs \<and>
          remembered evs = [] \<and> saves k evs = [] \<and> trainings evs = 0"
  "current_best_eval_score (ended (eval_runs G A rs st m q)) = current_best_eval_score st"
  "m_eval_score st = Some m \<Longrightarrow> eval_runs G A rs st m q = Inr (st', m', q') \<Longrightarrow>
     m_eval_score st' = Some m'"
proof -
  have "(\<exists>evs. effects (ended (eval_runs G A rs st m q)) = effects st @ evs \<and>
          remembered evs = [] \<and> saves k evs = [] \<and> trainings evs = 0) \<and>
    current_best_eval_score (ended (eval_runs G A rs st m q)) = current_best_eval_score st \<and>
    (m_eval_score st = Some m \<longrightarrow> eval_runs G A rs st m q = Inr (st', m', q') \<longrightarrow>
       m_eval_score st' = Some m')"
  proof (induction rs arbitrary: st m q)
    case Nil
    show ?case by auto
  next
    case (Cons run rs)
    obtain x e1 where gr: "g_reset G (g_env st) = (x, e1)"
      by (cases "g_reset G (g_env st)") auto
    let ?st0 = "t_emit [EnvReset] (st\<lparr>g_env := e1\<rparr>)"
    obtain st1 es eq where ev:
      "eval_steps G A (py_range (g_max_episode_steps G)) ?st0 x 0 0 = (st1, es, eq)"
      by (cases "eval_steps G A (py_range (g_max_episode_steps G)) ?st0 x 0 0") auto
    note ef = eval_steps_facts [where G = G and A = A and js = "py_range (g_max_episode_steps G)"
        and st = "?st0" and x = x and sc = 0 and q = 0, unfolded ev, simplified]
    from ef(1) [of k] obtain evs1 where e1: "effects st1 = effects st @ EnvReset # evs1"
      and b1: "remembered evs1 = []" "saves k evs1 = []" "trainings evs1 = 0"
      by auto
    let ?st2 = "st1\<lparr>m_eval_score := Some (m + es)\<rparr>"
    show ?case
    proof (cases "loop_j st1")
      case None
      then have "eval_runs G A (run # rs) st m q = Inl (UnboundLocalError, ?st2)"
        by (simp add: gr ev Let_def)
      then show ?thesis using e1 b1 ef(2) by simp
    next
      case (Some j)
      let ?st3 = "t_emit [PrintLine ''E'' (run + 1) (py_int es) (q + eq) (j + 1) (- 1)] ?st2"
      have er: "eval_runs G A (run # rs) st m q = eval_runs G A rs ?st3 (m + es) (q + eq)"
        using Some by (simp add: gr ev Let_def)
      from Cons.IH [of ?st3 "m + es" "q + eq"] obtain evs2 where
        e2: "effects (ended (eval_runs G A rs ?st3 (m + es) (q + eq))) = effects ?st3 @ evs2"
        and b2: "remembered evs2 = []" "saves k evs2 = []" "trainings evs2 = 0"
        and c2: "current_best_eval_score (ended (eval_runs G A rs ?st3 (m + es) (q + eq))) =
                 current_best_eval_score ?st3"
        and m2: "eval_runs G A rs ?st3 (m + es) (q + eq) = Inr (st', m', q') \<longrightarrow> m_eval_score st' = Some m'"
        by auto
      let ?evs = "EnvReset # evs1 @ [PrintLine ''E'' (run + 1) (py_int es) (q + eq) (j + 1) (- 1)] @ evs2"
      have "effects (ended (eval_runs G A (run # rs) st m q)) = effects st @ ?evs"
        unfolding er e2 by (simp add: e1)
      moreover have "remembered ?evs = []" "saves k ?evs = []" "trainings ?evs = 0"
        using b1 b2 by simp_all
      moreover have "current_best_eval_score (ended (eval_runs G A (run # rs) st m q)) = current_best_eval_score st"
        unfolding er c2 using ef(2) by simp
      moreover have "eval_runs G A (run # rs) st m q = Inr (st', m', q') \<longrightarrow> m_eval_score st' = Some m'"
        unfolding er using m2 .
      ultimately show ?thesis by blast
    qed
  qed
  then show "\<exists>evs. effects (ended (eval_runs G A rs st m q)) = effects st @ evs \<and>
          remembered evs = [] \<and> saves k evs = [] \<and> trainings evs = 0"
  "current_best_eval_score (ended (eval_runs G A rs st m q)) = current_best_eval_score st"
  "m_eval_score st = Some m \<Longrightarrow> eval_runs G A rs st m q = Inr (st', m', q') \<Longrightarrow>
     m_eval_score st' = Some m'"
    by blast+
qed


lemma final_Inl [simp]: "final (Inl e) = snd e"
  by (cases e) simp

lemma train_episode_facts:
  fixes G A c st ep
  defines "st' \<equiv> final (train_episode G A c st ep)"
  shows "\<exists>evs. effects st' = effects st @ evs \<and>
           (saves k evs = [] \<and> current_best_eval_score st' = current_best_eval_score st \<or>
            saves k evs = (if k = ''nb_policy'' then [ep] else []) \<and>
            current_best_eval_score st < current_best_eval_score st' \<and>
            m_eval_score st' = Some (current_best_eval_score st'))"
proof -
  obtain x e1 where gr: "g_reset G (g_env st) = (x, e1)"
    by (cases "g_reset G (g_env st)") auto
  let ?st0 = "t_emit [EnvReset] (st\<lparr>g_env := e1\<rparr>)"
  let ?loc0 = "\<lparr>cur_obs = x, sum_r = 0, sum_q = 0, episode_batch = [],
                  min_d2goal = get_current_distance G (g_env ?st0)\<rparr>"
  let ?ts = "train_steps G A c ep (py_range (g_max_episode_steps G)) ?st0 ?loc0"
  note tf = train_steps_facts [where G = G and A = A and c = c and ep = ep and
      js = "py_range (g_max_episode_steps G)" and st = "?st0" and loc = "?loc0"]
  from tf(1) [of k] obtain evs1 where e1: "effects (ended ?ts) = effects st @ EnvReset # evs1"
    and b1: "saves k evs1 = []"
    by auto
  have c1: "current_best_eval_score (ended ?ts) = current_best_eval_score st"
    using tf(2) by simp
  show ?thesis
  proof (cases ?ts)
    case (Inl e)
    then have "train_episode G A c st ep = Inl e"
      by (simp add: train_episode_def gr Let_def)
    then show ?thesis unfolding st'_def using e1 b1 c1 Inl by simp
  next
    case (Inr b)
    obtain st1 loc1 where b: "b = (st1, loc1)" by (cases b)
    have st1: "effects st1 = effects st @ EnvReset # evs1"
      "current_best_eval_score st1 = current_best_eval_score st"
      using e1 c1 Inr b by simp_all
    let ?st2 = "remember_all A (episode_batch loc1) st1"
    note rf = remember_all_facts [where A = A and trs = "episode_batch loc1" and st = st1]
    show ?thesis
    proof (cases "loop_i ?st2")
      case None
      then have "train_episode G A c st ep = Inl (UnboundLocalError, ?st2)"
        using Inr b by (simp add: train_episode_def gr Let_def)
      then show ?thesis unfolding st'_def using st1 b1 rf by simp
    next
      case (Some i)
      let ?st3 = "t_emit [PrintLine ''T'' (ep + 1) (py_int (sum_r loc1)) (sum_q loc1)
                                       (i + 1) (min_d2goal loc1),
                                     AddMergedSummary ep, Flush] ?st2"
      have st3: "effects ?st3 = effects st @ EnvReset # evs1 @ map Remember (episode_batch loc1) @
                   [PrintLine ''T'' (ep + 1) (py_int (sum_r loc1)) (sum_q loc1) (i + 1) (min_d2goal loc1),
                    AddMergedSummary ep, Flush]"
        "current_best_eval_score ?st3 = current_best_eval_score st"
        using st1 rf by simp_all
      show ?thesis
      proof (cases "(ep + 1) mod 20 \<noteq> 0")
        case True
        then have "train_episode G A c st ep = Inr ?st3"
          using Inr b Some by (simp add: train_episode_def gr Let_def)
        then show ?thesis unfolding st'_def using st3 b1 by simp
      next
        case False
        let ?st4 = "t_emit [PrintBlank] (?st3\<lparr>m_eval_score := Some 0\<rparr>)"
        let ?er = "eval_runs G A (py_range 5) ?st4 0 0"
        note ef = eval_runs_facts [where G = G and A = A and rs = "py_range 5" and st = "?st4" and m = 0
          and q = 0]
        from ef(1) [of k] obtain evs2 where e2: "effects (ended ?er) = effects ?st4 @ evs2"
          and b2: "saves k evs2 = []" by auto
        have c2: "current_best_eval_score (ended ?er) = current_best_eval_score st"
          using ef(2) st3 by simp
        have e4: "effects ?st4 = effects ?st3 @ [PrintBlank]" by simp
        show ?thesis
        proof (cases ?er)
          case (Inl e)
          then have "train_episode G A c st ep = Inl e"
            using Inr b Some False by (simp add: train_episode_def gr Let_def)
          then show ?thesis unfolding st'_def using e2 b2 c2 Inl b1 st3 by simp
        next
          case er: (Inr b')
          obtain st5 m q where b': "b' = (st5, m, q)" by (cases b') auto
          have m5: "m_eval_score st5 = Some m"
            by (rule ef(3) [OF _ er [unfolded b']]) simp
          have st5: "effects st5 = effects ?st4 @ evs2"
            "current_best_eval_score st5 = current_best_eval_score st"
            using e2 c2 er b' by simp_all
          let ?st6 = "t_emit [PrintBlank] st5"
          show ?thesis
          proof (cases "m > current_best_eval_score st")
            case True
            then have "train_episode G A c st ep =
                Inr (t_emit [SaverSave ''nb_policy'' ep]
                       ((t_emit [PrintNewBest m, PrintOldBest (current_best_eval_score ?st6)] ?st6)
                          \<lparr>current_best_eval_score := m\<rparr>))"
              using Inr b Some False er b' st5
              by (simp add: train_episode_def gr Let_def)
            then show ?thesis unfolding st'_def using st5 st3 b1 b2 m5 True
              by (simp add: t_emit_def)
          next
            case F: False
            then have "train_episode G A c st ep = Inr ?st6"
              using Inr b Some False er b' st5
              by (simp add: train_episode_def gr Let_def)
            then show ?thesis unfolding st'_def using st5 st3 b1 b2
              by simp
          qed
        qed
      qed
    qed
  qed
qed

section \<open>The claims\<close>

lemma test_generator_fields:
  "episode (test_generator sc c ev) = 0"
  "best_score (test_generator sc c ev) = 0"
  "eval (test_generator sc c ev) = ev"
  "periodic_ckpt (test_generator sc c ev) = (case cfg_periodic_ckpt c of None \<Rightarrow> 0 | Some p \<Rightarrow> p)"
  "save_best (test_generator sc c ev) = (case cfg_save_best c of None \<Rightarrow> False | Some b \<Rightarrow> b)"
  "train_cycles_per_ts (test_generator sc c ev) = cfg_train_cycles_per_ts c"
  "n_episodes (test_generator sc c ev) = cfg_n_episodes c"
  "success (test_generator sc c ev) = 0"
  "summary (test_generator sc c ev) = Some []"
  "summary_writer (test_generator sc c ev) = Some ''w''"
  "mean_er (test_generator sc c ev) = None"
  by (simp_all add: test_generator_def init_fields)

lemma periodic_example:
  "\<exists>s'. run (script_env 50) stub_agent (replicate 12 GenerateRollout)
          (test_generator [] (test_config 5 False) False) = Inr s' \<and>
        episode s' = 12 \<and> saves ''P'' (out s') = [5, 10]"
  by (simp add: numeral_eq_Suc eval_defs)

text \<open>
  C2. Every call of \<open>create_checkpoint\<close> saves a periodic checkpoint, tagged with the
  current episode, exactly when \<open>periodic_ckpt\<close> is truthy and divides the episode count
  (whether the call then returns or raises); so does every rollout that returns, for the
  episode count it has just incremented. With \<open>periodic_ckpt = 5\<close>, twelve rollouts save at
  episodes 5 and 10 only.
\<close>

theorem periodic_checkpoint:
  "saves ''P'' (new_events (out s) (out (final (create_checkpoint s)))) =
     (if periodic_ckpt s \<noteq> 0 \<and> periodic_ckpt s dvd episode s then [episode s] else []) \<and>
   (\<forall>s'. generate_rollout E A s = Inr s' \<longrightarrow>
      episode s' = episode s + 1 \<and>
      saves ''P'' (new_events (out s) (out s')) =
        (if periodic_ckpt s \<noteq> 0 \<and> periodic_ckpt s dvd episode s' then [episode s'] else [])) \<and>
   (\<exists>s'. run (script_env 50) stub_agent (replicate 12 GenerateRollout)
           (test_generator [] (test_config 5 False) False) = Inr s' \<and>
         episode s' = 12 \<and> saves ''P'' (out s') = [5, 10])"
proof (intro conjI allI impI)
  show "saves ''P'' (new_events (out s) (out (final (create_checkpoint s)))) =
     (if periodic_ckpt s \<noteq> 0 \<and> periodic_ckpt s dvd episode s then [episode s] else [])"
    unfolding create_checkpoint_final(1) by (simp add: mod_zero_dvd)
next
  fix s' assume g: "generate_rollout E A s = Inr s'"
  show "episode s' = episode s + 1" by (rule generate_rollout_fields(1) [OF g])
  show "saves ''P'' (new_events (out s) (out s')) =
        (if periodic_ckpt s \<noteq> 0 \<and> periodic_ckpt s dvd episode s' then [episode s'] else [])"
    unfolding generate_rollout_fields(12) [OF g] by (simp add: mod_zero_dvd)
next
  show "\<exists>s'. run (script_env 50) stub_agent (replicate 12 GenerateRollout)
           (test_generator [] (test_config 5 False) False) = Inr s' \<and>
         episode s' = 12 \<and> saves ''P'' (out s') = [5, 10]"
    by (rule periodic_example)
qed

theorem periodic_checkpoint_witness:
  "\<exists>s'. generate_rollout (script_env 50) stub_agent (test_generator [] (test_config 1 False) False) =
          Inr s' \<and>
        episode s' = 1 \<and>
        saves ''P'' (new_events (out (test_generator [] (test_config 1 False) False)) (out s')) = [1]"
proof -
  let ?s = "test_generator [] (test_config 1 False) False"
  obtain s' where g: "generate_rollout (script_env 50) stub_agent ?s = Inr s'"
    by (simp add: eval_defs)
  have 0: "episode ?s = 0" "periodic_ckpt ?s = 1"
    by (simp_all add: test_generator_fields test_config_def)
  note th = periodic_checkpoint [of ?s "script_env 50" stub_agent, THEN conjunct2, THEN conjunct1,
      rule_format, OF g]
  from th have e: "episode s' = 1" by (simp add: 0)
  from th have "saves ''P'' (new_events (out ?s) (out s')) = [1]" by (simp add: 0 e)
  with e g show ?thesis by blast
qed

lemma best_example:
  "map (\<lambda>s. (mean_er s, best_score s, saves ''B'' (out s)))
     (states (script_env 50) stub_agent [GenerateRollout, GenerateRollout, GenerateRollout]
        (test_generator [(2, True, False), (1, True, False), (6, True, False)]
           (test_config 0 True) True)) =
   [(None, 0, []), (Some 2, 2, [1]), (Some (3 / 2), 2, [1]), (Some 3, 3, [1, 3])]"
  by (simp add: eval_defs)

text \<open>
  C1. Every call of \<open>create_checkpoint\<close> saves a best-score checkpoint, tagged with the
  current episode, exactly when the generator is in evaluation mode, \<open>save_best\<close> is set and
  the running mean reward exceeds the best score, and then the best score becomes that
  mean. In a rollout that returns, the running mean is \<open>r_total / episode\<close> of the state
  returned. For the running means 2, 1.5 and 3 the checkpoint is saved at rollouts 1 and 3.
\<close>

theorem best_score_checkpoint:
  "saves ''B'' (new_events (out s) (out (final (create_checkpoint s)))) =
     (if eval s \<and> save_best s \<and> (\<exists>m. mean_er s = Some m \<and> best_score s < m)
      then [episode s] else []) \<and>
   best_score (final (create_checkpoint s)) =
     (if eval s \<and> save_best s \<and> (\<exists>m. mean_er s = Some m \<and> best_score s < m)
      then the (mean_er s) else best_score s) \<and>
   (\<forall>s'. generate_rollout E A s = Inr s' \<longrightarrow>
      mean_er s' = Some (r_total s' / real_of_int (episode s')) \<and>
      saves ''B'' (new_events (out s) (out s')) =
        (if eval s \<and> save_best s \<and> best_score s < r_total s' / real_of_int (episode s')
         then [episode s'] else []) \<and>
      best_score s' =
        (if eval s \<and> save_best s \<and> best_score s < r_total s' / real_of_int (episode s')
         then r_total s' / real_of_int (episode s') else best_score s)) \<and>
   map (\<lambda>s. (mean_er s, best_score s, saves ''B'' (out s)))
     (states (script_env 50) stub_agent [GenerateRollout, GenerateRollout, GenerateRollout]
        (test_generator [(2, True, False), (1, True, False), (6, True, False)]
           (test_config 0 True) True)) =
   [(None, 0, []), (Some 2, 2, [1]), (Some (3 / 2), 2, [1]), (Some 3, 3, [1, 3])]"
proof (intro conjI allI impI)
  show "saves ''B'' (new_events (out s) (out (final (create_checkpoint s)))) =
     (if eval s \<and> save_best s \<and> (\<exists>m. mean_er s = Some m \<and> best_score s < m)
      then [episode s] else [])"
    unfolding create_checkpoint_final(1) by simp
  show "best_score (final (create_checkpoint s)) =
     (if eval s \<and> save_best s \<and> (\<exists>m. mean_er s = Some m \<and> best_score s < m)
      then the (mean_er s) else best_score s)"
    by (rule create_checkpoint_final(2))
next
  fix s' assume g: "generate_rollout E A s = Inr s'"
  show "mean_er s' = Some (r_total s' / real_of_int (episode s'))"
    by (rule generate_rollout_fields(6) [OF g])
  show "saves ''B'' (new_events (out s) (out s')) =
        (if eval s \<and> save_best s \<and> best_score s < r_total s' / real_of_int (episode s')
         then [episode s'] else [])"
    by (rule generate_rollout_fields(11) [OF g])
  show "best_score s' =
        (if eval s \<and> save_best s \<and> best_score s < r_total s' / real_of_int (episode s')
         then r_total s' / real_of_int (episode s') else best_score s)"
    by (rule generate_rollout_fields(9) [OF g])
next
  show "map (\<lambda>s. (mean_er s, best_score s, saves ''B'' (out s)))
     (states (script_env 50) stub_agent [GenerateRollout, GenerateRollout, GenerateRollout]
        (test_generator [(2, True, False), (1, True, False), (6, True, False)]
           (test_config 0 True) True)) =
   [(None, 0, []), (Some 2, 2, [1]), (Some (3 / 2), 2, [1]), (Some 3, 3, [1, 3])]"
    by (rule best_example)
qed

theorem best_score_checkpoint_witness:
  "\<exists>s'. generate_rollout (script_env 50) stub_agent
          (test_generator [(2, True, False)] (test_config 0 True) True) = Inr s' \<and>
        mean_er s' = Some (r_total s' / real_of_int (episode s')) \<and>
        r_total s' = 2 \<and> episode s' = 1 \<and> best_score s' = 2 \<and>
        saves ''B'' (new_events (out (test_generator [(2, True, False)] (test_config 0 True) True))
                       (out s')) = [1]"
proof -
  let ?s = "test_generator [(2, True, False)] (test_config 0 True) True"
  obtain s' where g: "generate_rollout (script_env 50) stub_agent ?s = Inr s'"
    and r: "r_total s' = 2" and e: "episode s' = 1"
    by (simp add: eval_defs)
  have 0: "eval ?s" "save_best ?s" "best_score ?s = 0"
    by (simp_all add: test_generator_fields test_config_def)
  note th = best_score_checkpoint [of ?s "script_env 50" stub_agent, THEN conjunct2, THEN conjunct2,
      THEN conjunct1, rule_format, OF g]
  from th have "mean_er s' = Some (r_total s' / real_of_int (episode s'))" by blast
  moreover from th have "best_score s' = 2" by (simp add: 0 r e)
  moreover from th have "saves ''B'' (new_events (out ?s) (out s')) = [1]" by (simp add: 0 r e)
  ultimately show ?thesis using g r e by blast
qed




lemma write_summary_Inl:
  assumes "write_summary s = Inl (e, s')"
  shows "s' = s" and "e = AttributeError"
  using assms by (cases "summary_writer s"; simp add: write_summary_def emit_def)+






lemma generate_rollout_final:
  fixes E A s
  defines "sf \<equiv> final (generate_rollout E A s)"
  defines "new \<equiv> new_events (out s) (out sf)"
  shows "out sf = out s @ new"
    and "length (remembered new) = length (env_steps new)"
    and "list_all well_formed (remembered new)"
    and "int (length (env_steps new)) \<le> max 0 (max_episode_steps E)"
    and "generate_rollout E A s = Inl (e, s') \<Longrightarrow>
           saves k new = [] \<and> best_score s' = best_score s \<and> e \<noteq> AssertionError"
proof -
  let ?l = "rollout_loop E A (touch s (snd (env_reset E (env s))) (agent s) [EnvReset])
        (fst (env_reset E (env s))) 0 False 0 0 None"
  note lr = rollout_loop_from_reset(1-4) [where s = s and E = E and A = A]
    rollout_loop_from_reset(5) [where s = s and E = E and A = A and c = k]
    rollout_loop_from_reset(6) [where s = s and E = E and A = A]
  have "out sf = out s @ new \<and> length (remembered new) = length (env_steps new) \<and>
        list_all well_formed (remembered new) \<and>
        int (length (env_steps new)) \<le> max 0 (max_episode_steps E) \<and>
        (generate_rollout E A s = Inl (e, s') \<longrightarrow>
           saves k new = [] \<and> best_score s' = best_score s \<and> e \<noteq> AssertionError)"
  proof (cases ?l)
    case (Inl a)
    obtain e1 s1 where a: "a = (e1, s1)" by (cases a)
    have g: "generate_rollout E A s = Inl (e1, s1)"
      using Inl a by (simp add: generate_rollout_unfold)
    have sf: "sf = s1" unfolding sf_def g by simp
    have en: "ended ?l = s1" using Inl a by simp
    note lr' = lr [unfolded en]
    note ff = framed_fields [OF lr'(1)]
    have ne: "e1 \<noteq> AssertionError"
      using rollout_loop_from_reset(7) [of E A s s1] Inl a by auto
    show ?thesis
      unfolding new_def sf g
      using lr'(2-6) ff(3) ff(20) ne by auto
  next
    case (Inr b)
    obtain s1 t q r info where b: "b = (s1, t, q, r, info)" by (cases b) auto
    have g: "generate_rollout E A s = finish_rollout s1 t q r info"
      using Inr b by (simp add: generate_rollout_unfold)
    have en: "ended ?l = s1" using Inr b by simp
    note lr' = lr [unfolded en]
    note ff = framed_fields [OF lr'(1)]
    show ?thesis
    proof (cases "finish_rollout s1 t q r info")
      case fin: (Inl a)
      obtain e1 s2 where a: "a = (e1, s2)" by (cases a)
      from finish_rollout_Inl [OF fin [unfolded a], of k] obtain evs where
        f: "best_score s2 = best_score s1" "e1 \<noteq> AssertionError" "out s2 = out s1 @ evs"
          "saves k evs = []" "env_steps evs = []" "remembered evs = []"
        by blast
      have sf: "sf = s2" unfolding sf_def g fin a by simp
      have o: "out s2 = out s @ new_events (out s) (out s1) @ evs"
        unfolding f(3) by (subst ff(20)) simp
      have n: "new_events (out s) (out s2) = new_events (out s) (out s1) @ evs"
        unfolding o by (simp add: new_events_prefix)
      show ?thesis
        unfolding new_def sf g fin a n
        using o lr'(2-6) f ff(3) by auto
    next
      case fin: (Inr s2)
      have g': "generate_rollout E A s = Inr s2" using g fin by simp
      note gf = generate_rollout_fields [OF g']
      have sf: "sf = s2" unfolding sf_def g' by simp
      show ?thesis
        unfolding new_def sf using gf(10,15,16,17) g' by simp
    qed
  qed
  then show "out sf = out s @ new"
    and "length (remembered new) = length (env_steps new)"
    and "list_all well_formed (remembered new)"
    and "int (length (env_steps new)) \<le> max 0 (max_episode_steps E)"
    and "generate_rollout E A s = Inl (e, s') \<Longrightarrow>
           saves k new = [] \<and> best_score s' = best_score s \<and> e \<noteq> AssertionError"
    by blast+
qed






text \<open>
  C8. The loop of \<open>generate_rollout\<close> is defined by recursion on
  \<open>max_episode_steps - t\<close>, so every call ends; whether it returns or raises it has
  stepped the environment at most \<open>max_episode_steps\<close> times (never, when the cap is not
  positive). The same holds of the training loop and of each evaluation run of
  \<open>train.py\<close> with \<open>_max_episode_steps\<close>.
\<close>

theorem steps_within_cap:
  "int (length (env_steps (new_events (out s) (out (final (generate_rollout E A s)))))) \<le>
     max 0 (max_episode_steps E) \<and>
   (0 \<le> max_episode_steps E \<longrightarrow>
      int (length (env_steps (new_events (out s) (out (final (generate_rollout E A s)))))) \<le>
        max_episode_steps E) \<and>
   int (length (env_steps (new_events (effects st)
      (effects (ended (train_steps G T c ep (py_range (g_max_episode_steps G)) st loc)))))) \<le>
     max 0 (g_max_episode_steps G) \<and>
   int (length (env_steps (new_events (effects st)
      (effects (fst (eval_steps G T (py_range (g_max_episode_steps G)) st x0 sc q)))))) \<le>
     max 0 (g_max_episode_steps G)"
proof (intro conjI impI)
  show 1: "int (length (env_steps (new_events (out s) (out (final (generate_rollout E A s)))))) \<le>
     max 0 (max_episode_steps E)"
    by (rule generate_rollout_final(4))
  show "int (length (env_steps (new_events (out s) (out (final (generate_rollout E A s)))))) \<le>
        max_episode_steps E" if "0 \<le> max_episode_steps E"
    using 1 that by simp
next
  from train_steps_facts(1) [of G T c ep "py_range (g_max_episode_steps G)" st loc "[]"]
  obtain evs where
    e: "effects (ended (train_steps G T c ep (py_range (g_max_episode_steps G)) st loc)) = effects st @ evs"
    and b: "length (env_steps evs) \<le> length (py_range (g_max_episode_steps G))"
    by blast
  show "int (length (env_steps (new_events (effects st)
      (effects (ended (train_steps G T c ep (py_range (g_max_episode_steps G)) st loc)))))) \<le>
     max 0 (g_max_episode_steps G)"
    unfolding e using b by simp
next
  from eval_steps_facts(1) [of G T "py_range (g_max_episode_steps G)" st x0 sc q "[]"]
  obtain evs where
    e: "effects (fst (eval_steps G T (py_range (g_max_episode_steps G)) st x0 sc q)) = effects st @ evs"
    and b: "length (env_steps evs) \<le> length (py_range (g_max_episode_steps G))"
    by blast
  show "int (length (env_steps (new_events (effects st)
      (effects (fst (eval_steps G T (py_range (g_max_episode_steps G)) st x0 sc q)))))) \<le>
     max 0 (g_max_episode_steps G)"
    unfolding e using b by simp
qed

theorem steps_within_cap_witness:
  "(0::int) \<le> max_episode_steps (script_env 2) \<and>
   length (env_steps (new_events
     (out (test_generator [(1, False, False), (1, False, False), (1, True, True)] (test_config 0 False) False))
     (out (final (generate_rollout (script_env 2) stub_agent
        (test_generator [(1, False, False), (1, False, False), (1, True, True)] (test_config 0 False) False)))))) = 2"
proof -
  let ?s = "test_generator [(1, False, False), (1, False, False), (1, True, True)] (test_config 0 False) False"
  have c: "max_episode_steps (script_env 2) = 2" by (simp add: script_env_def)
  have "2 \<le> length (env_steps (new_events (out ?s) (out (final (generate_rollout (script_env 2) stub_agent ?s)))))"
    by (simp add: eval_defs new_events_def)
  moreover from steps_within_cap [of ?s "script_env 2" stub_agent, THEN conjunct2, THEN conjunct1] c
  have "int (length (env_steps (new_events (out ?s) (out (final (generate_rollout (script_env 2) stub_agent ?s)))))) \<le> 2"
    by simp
  ultimately show ?thesis using c by simp
qed

end
